theory Spec2Isabelle
  imports
    Main
    "HOL-Library.Sublist"
    "HOL-Library.Char_ord"
    "HOL-Library.List_Lexorder"
    "HOL-Library.Product_Lexorder"
begin

chapter \<open>The model\<close>

section \<open>Errors and string utilities\<close>

text \<open>
  Every \<^verbatim>\<open>raise\<close> of the two Python modules is a value of this type. The plain
  \<^verbatim>\<open>Exception(msg)\<close> objects of \<^verbatim>\<open>query.py\<close> are told apart by their message; the
  constructor carries the value that the message is formatted with.
\<close>

datatype error =
    KeyError string
  | TypeError
  | IndexError
  | StopIteration
  | ValueError string
  | FailedToMapHandle string
  | UndefinedParameter string
  | IllegalContext string
  | UndefinedVariable string
  | UnsupportedOperator string
  | IllegalCast
  | UnhandledPropertyLookup
  | UnhandledOperator string
  | UnhandledExpressionType

text \<open>Python's \<^verbatim>\<open>'%d' % n\<close> for a length \<open>n\<close>: the decimal digits, no sign, no padding.\<close>

definition digit_char :: "nat \<Rightarrow> char" where
  "digit_char n = ''0123456789'' ! n"

function str_of_nat :: "nat \<Rightarrow> string" where
  "str_of_nat n =
     (if n < 10 then [digit_char n]
      else str_of_nat (n div 10) @ [digit_char (n mod 10)])"
  by pat_completeness auto

termination
  by (relation "measure id") auto

declare str_of_nat.simps [simp del]

text \<open>
  \<^verbatim>\<open>s.split(sep)\<close> for a non-empty separator, which is also what
  \<^verbatim>\<open>re.split('\\?\\?', s)\<close> computes for the separator \<^verbatim>\<open>??\<close>: the text is cut at the
  leftmost occurrences of the separator, which do not overlap; the pieces between them are
  returned, empty pieces included.
\<close>

fun cons_first :: "char \<Rightarrow> string list \<Rightarrow> string list" where
  "cons_first c [] = [[c]]"
| "cons_first c (t # ts) = (c # t) # ts"

function str_split :: "string \<Rightarrow> string \<Rightarrow> string list" where
  "str_split sep [] = [[]]"
| "str_split sep (c # s) =
     (if sep \<noteq> [] \<and> prefix sep (c # s)
      then [] # str_split sep (drop (length sep) (c # s))
      else cons_first c (str_split sep s))"
  by pat_completeness auto

termination
  by (relation "measure (\<lambda>(sep, s). length s)") auto

text \<open>\<^verbatim>\<open>s.split(sep)\<close> raises \<^verbatim>\<open>ValueError\<close> on the empty separator.\<close>

definition py_split :: "string \<Rightarrow> string \<Rightarrow> error + string list" where
  "py_split sep s = (if sep = [] then Inl (ValueError ''empty separator'') else Inr (str_split sep s))"

section \<open>Literal parameter table (\<^verbatim>\<open>query.py\<close>)\<close>

text \<open>
  \<^verbatim>\<open>litmap\<close> is a Python dict from literal values to placeholder strings. A dict keeps
  its keys in insertion order, and \<^verbatim>\<open>replace_literal_parameters\<close> iterates over it, so
  it is an association list with distinct keys, oldest entry first.
\<close>

type_synonym 'v litmap = "('v \<times> string) list"

text \<open>\<^verbatim>\<open>'???%d??' % n\<close>: three marker characters, the number, two marker characters.\<close>

definition placeholder_token :: "nat \<Rightarrow> string" where
  "placeholder_token n = ''???'' @ str_of_nat n @ ''??''"

definition get_literal_parameter :: "'v \<Rightarrow> 'v litmap \<Rightarrow> string \<times> 'v litmap" where
  "get_literal_parameter literal litmap =
     (case map_of litmap literal of
        Some p \<Rightarrow> (p, litmap)
      | None \<Rightarrow>
          (let placeholder = placeholder_token (length litmap)
           in (placeholder, litmap @ [(literal, placeholder)])))"

text \<open>The map after a sequence of intern calls on a map, and from the empty dict.\<close>

definition intern_seq :: "'v litmap \<Rightarrow> 'v list \<Rightarrow> 'v litmap" where
  "intern_seq litmap vs = foldl (\<lambda>m v. snd (get_literal_parameter v m)) litmap vs"

definition intern_all :: "'v list \<Rightarrow> 'v litmap" where
  "intern_all vs = intern_seq [] vs"

text \<open>
  The shape of a map that only \<^verbatim>\<open>get_literal_parameter\<close> has written to: distinct keys,
  and the \<open>i\<close>-th entry holds the token minted at size \<open>i\<close>.
\<close>

definition minted :: "'v litmap \<Rightarrow> bool" where
  "minted m \<longleftrightarrow> distinct (map fst m) \<and> map snd m = map placeholder_token [0..<length m]"

section \<open>Edge reader (\<^verbatim>\<open>edgereader.py\<close>)\<close>

text \<open>
  The attributes of \<^verbatim>\<open>EdgeReader\<close> that \<^verbatim>\<open>__next__\<close> reads or writes. The input stream
  (\<^verbatim>\<open>file_in\<close>, or the queue of the gzip process when there is one) is the list of the
  lines it has not yielded yet; \<^verbatim>\<open>line_count\<close> is the one-element list's element.
\<close>

record edge_reader =
  column_separator :: string
  column_names :: "string list"
  column_count :: int
  require_all_columns :: bool
  prohibit_extra_columns :: bool
  fill_missing_columns :: bool
  line_count :: int
  input_lines :: "string list"
  input_closed :: bool

text \<open>\<^verbatim>\<open>while len(values) < self.column_count: values.append("")\<close>\<close>

function fill_missing :: "int \<Rightarrow> string list \<Rightarrow> string list" where
  "fill_missing count values =
     (if int (length values) < count then fill_missing count (values @ [''''])
      else values)"
  by pat_completeness auto

termination
  by (relation "measure (\<lambda>(count, values). nat (count - int (length values)))") auto

declare fill_missing.simps [simp del]

text \<open>
  \<^verbatim>\<open>__next__\<close>: the outcome (the raised exception or the returned list) and the reader
  afterwards. The two \<^verbatim>\<open>ValueError\<close> messages are shortened to their constant part.
\<close>

definition edge_next :: "edge_reader \<Rightarrow> (error + string list) \<times> edge_reader" where
  "edge_next r =
     (case input_lines r of
        [] \<Rightarrow> (Inl StopIteration, r\<lparr>input_closed := True\<rparr>)
      | line # rest \<Rightarrow>
          (let r1 = r\<lparr>input_lines := rest\<rparr> in
           case py_split (column_separator r) line of
             Inl e \<Rightarrow> (Inl e, r1)
           | Inr values \<Rightarrow>
               if require_all_columns r \<and> int (length values) < column_count r
               then (Inl (ValueError ''Required columns in input line''), r1)
               else if prohibit_extra_columns r \<and> int (length values) > column_count r
               then (Inl (ValueError ''Required columns in input line (extra)''), r1)
               else (Inr (if fill_missing_columns r \<and> int (length values) < column_count r
                          then fill_missing (column_count r) values
                          else values),
                     r1\<lparr>line_count := line_count r + 1\<rparr>)))"

text \<open>
  A reader over four columns that fills and prohibits, before a line of three fields and
  a line of five.
\<close>

definition example_reader :: edge_reader where
  "example_reader =
     \<lparr>column_separator = ''|'', column_names = [''node1'', ''label'', ''node2'', ''id''],
      column_count = 4, require_all_columns = False, prohibit_extra_columns = True,
      fill_missing_columns = True, line_count = 1,
      input_lines = [''Hans|loves|Molly'', ''a|b|c|d|e''], input_closed = False\<rparr>"

section \<open>Variable binding map (\<^verbatim>\<open>query.py\<close>)\<close>

text \<open>
  An SQL clause variable is the pair \<^verbatim>\<open>(graph, column)\<close>, \<^verbatim>\<open>graph\<close> being the table alias
  of the clause. \<^verbatim>\<open>varmap\<close> is a dict from Kypher variable names to Python sets of such
  pairs. A Python set has no order of its own; what the code observes of it is the order
  in which \<^verbatim>\<open>for equiv_var in sql_vars\<close> and \<^verbatim>\<open>list(sql_vars)\<close> visit the elements. The
  set is therefore the list of its elements in that order, without repetition; an element
  added to the set is put at the end. \<^verbatim>\<open>joins\<close> is a set of pairs of SQL variables, only
  ever inserted into.
\<close>

type_synonym sql_var = "string \<times> string"

type_synonym varmap = "string \<rightharpoonup> sql_var list"

type_synonym joins = "(sql_var \<times> sql_var) set"

definition set_add :: "'a list \<Rightarrow> 'a \<Rightarrow> 'a list" where
  "set_add xs x = (if x \<in> set xs then xs else xs @ [x])"

text \<open>
  The \<^verbatim>\<open>for equiv_var in sql_vars\<close> loop of \<^verbatim>\<open>register_clause_variable\<close>, with
  \<^verbatim>\<open>best_var\<close> as the accumulator; the \<^verbatim>\<open>break\<close> ends the recursion.
\<close>

fun best_var_scan :: "string \<Rightarrow> sql_var option \<Rightarrow> sql_var list \<Rightarrow> sql_var option" where
  "best_var_scan this_graph best_var [] = best_var"
| "best_var_scan this_graph best_var (equiv_var # rest) =
     (if best_var = None then best_var_scan this_graph (Some equiv_var) rest
      else if this_graph = fst equiv_var then Some equiv_var
      else best_var_scan this_graph (Some equiv_var) rest)"

text \<open>
  \<^verbatim>\<open>register_clause_variable\<close>. When the set is empty the loop leaves \<^verbatim>\<open>best_var\<close> at
  \<^verbatim>\<open>None\<close>, and sorting \<^verbatim>\<open>[None, sql_var]\<close> raises \<^verbatim>\<open>TypeError\<close>. \<^verbatim>\<open>equiv.sort()\<close> on
  two different tuples of strings puts the smaller one first, in the lexicographic order of
  tuples and strings.
\<close>

definition register_clause_variable ::
    "string \<Rightarrow> sql_var \<Rightarrow> varmap \<times> joins \<Rightarrow> error + (varmap \<times> joins)" where
  "register_clause_variable query_var sql_var st =
     (case st of (varmap, joins) \<Rightarrow>
        (case varmap query_var of
           None \<Rightarrow> Inr (varmap(query_var \<mapsto> [sql_var]), joins)
         | Some sql_vars \<Rightarrow>
             (case best_var_scan (fst sql_var) None sql_vars of
                None \<Rightarrow> Inl TypeError
              | Some best_var \<Rightarrow>
                  if sql_var \<noteq> best_var
                  then Inr (varmap(query_var \<mapsto> set_add sql_vars sql_var),
                            insert (min best_var sql_var, max best_var sql_var) joins)
                  else Inr (varmap, joins))))"

text \<open>
  The states a compilation can be in: \<^verbatim>\<open>translate_to_sql\<close> starts from the empty dict and
  the empty set and only \<^verbatim>\<open>register_clause_variable\<close> writes to them. Since the iteration
  order of a Python set is not fixed, a state stays reachable when the elements of the
  sets are visited in another order.
\<close>

inductive reachable :: "varmap \<times> joins \<Rightarrow> bool" where
  initial: "reachable (Map.empty, {})"
| register: "reachable st \<Longrightarrow> register_clause_variable query_var sql_var st = Inr st'
     \<Longrightarrow> reachable st'"
| reorder: "reachable (varmap, joins) \<Longrightarrow>
     (\<forall>v. map_option set (varmap' v) = map_option set (varmap v)) \<Longrightarrow>
     reachable (varmap', joins)"

text \<open>Every pair of the set has its smaller component first.\<close>

definition canonical :: "joins \<Rightarrow> bool" where
  "canonical j \<longleftrightarrow> (\<forall>a b. (a, b) \<in> j \<longrightarrow> a < b)"

section \<open>Placeholder rewrite (\<^verbatim>\<open>query.py\<close>)\<close>

text \<open>
  \<^verbatim>\<open>{p: l for l, p in litmap.items()}\<close>: the dict read backwards. Where two literals hold
  the same placeholder the later entry wins.
\<close>

definition reverse_litmap :: "'v litmap \<Rightarrow> (string \<rightharpoonup> 'v)" where
  "reverse_litmap litmap = map_of (rev (map (\<lambda>(l, p). (p, l)) litmap))"

text \<open>
  The loop over the tokens of \<^verbatim>\<open>re.split\<close>, with the text written so far and the parameter
  list as accumulators. A token that starts with the marker and is not a key of the
  reversed dict raises \<^verbatim>\<open>KeyError\<close>.
\<close>

fun replace_loop ::
    "(string \<rightharpoonup> 'v) \<Rightarrow> string list \<Rightarrow> string \<times> 'v list \<Rightarrow> error + (string \<times> 'v list)" where
  "replace_loop litmap [] (query, parameters) = Inr (query, parameters)"
| "replace_loop litmap (token # tokens) (query, parameters) =
     (if prefix ''?'' token
      then (case litmap (''??'' @ token @ ''??'') of
              None \<Rightarrow> Inl (KeyError (''??'' @ token @ ''??''))
            | Some l \<Rightarrow> replace_loop litmap tokens (query @ ''?'', parameters @ [l]))
      else replace_loop litmap tokens (query @ token, parameters))"

definition replace_literal_parameters ::
    "string \<Rightarrow> 'v litmap \<Rightarrow> error + (string \<times> 'v list)" where
  "replace_literal_parameters raw_query litmap =
     replace_loop (reverse_litmap litmap) (str_split ''??'' raw_query) ([], [])"

text \<open>
  A staged query text, described by its parts: stretches of text without the marker
  character, and occurrences of the placeholder of an interned literal. \<open>staged_text\<close> is
  the text itself, the placeholders written as \<^verbatim>\<open>get_literal_parameter\<close> returns them;
  \<open>final_text\<close> has one \<^verbatim>\<open>?\<close> for each occurrence; \<open>positional\<close> lists the literals of the
  occurrences from left to right.
\<close>

datatype 'v segment = Plain string | Placeholder 'v

fun segment_text :: "'v litmap \<Rightarrow> 'v segment \<Rightarrow> string" where
  "segment_text litmap (Plain s) = s"
| "segment_text litmap (Placeholder v) = fst (get_literal_parameter v litmap)"

definition staged_text :: "'v litmap \<Rightarrow> 'v segment list \<Rightarrow> string" where
  "staged_text litmap segs = concat (map (segment_text litmap) segs)"

fun final_text :: "'v segment list \<Rightarrow> string" where
  "final_text [] = []"
| "final_text (Plain s # segs) = s @ final_text segs"
| "final_text (Placeholder v # segs) = ''?'' @ final_text segs"

fun positional :: "'v segment list \<Rightarrow> 'v list" where
  "positional [] = []"
| "positional (Plain s # segs) = positional segs"
| "positional (Placeholder v # segs) = v # positional segs"

fun well_staged :: "'v litmap \<Rightarrow> 'v segment list \<Rightarrow> bool" where
  "well_staged litmap [] = True"
| "well_staged litmap (Plain s # segs) = (CHR ''?'' \<notin> set s \<and> well_staged litmap segs)"
| "well_staged litmap (Placeholder v # segs) = (v \<in> fst ` set litmap \<and> well_staged litmap segs)"

section \<open>Graph-handle resolver (\<^verbatim>\<open>query.py\<close>)\<close>

text \<open>
  \<^verbatim>\<open>re.search('[0-9]+$', handle)\<close>: the start of the match, if there is one. The class
  \<^verbatim>\<open>[0-9]\<close> holds the ten ASCII digits. Without the multi-line flag \<^verbatim>\<open>$\<close> matches at the
  end of the string and just before a newline that ends the string, so the match is the
  longest run of digits that ends there.
\<close>

definition is_digit :: "char \<Rightarrow> bool" where
  "is_digit c \<longleftrightarrow> c \<in> set ''0123456789''"

definition digit_suffix_start :: "string \<Rightarrow> nat option" where
  "digit_suffix_start handle =
     (let body = (if handle \<noteq> [] \<and> last handle = CHR 0x0A then butlast handle else handle);
          k = length (takeWhile is_digit (rev body))
      in if k = 0 then None else Some (length body - k))"

text \<open>
  \<^verbatim>\<open>base_handle = handle\<close>, replaced by \<^verbatim>\<open>handle[0:m.start()]\<close> when there is a match
  that does not start at 0.
\<close>

definition base_handle_of :: "string \<Rightarrow> string" where
  "base_handle_of handle =
     (case digit_suffix_start handle of
        Some start \<Rightarrow> if start > 0 then take start handle else handle
      | None \<Rightarrow> handle)"

text \<open>\<^verbatim>\<open>os.path.basename\<close> of \<^verbatim>\<open>posixpath\<close>: what follows the last slash.\<close>

definition basename :: "string \<Rightarrow> string" where
  "basename p = rev (takeWhile (\<lambda>c. c \<noteq> CHR ''/'') (rev p))"



text \<open>
  The resolution rule in the words of the specification: full-path equality is looked
  for among all files first, containment in the basename only when no registered file
  has the handle as its path.
\<close>

definition resolve_by_preference ::
    "string \<Rightarrow> string list \<Rightarrow> (string \<times> string) list \<Rightarrow> error + string" where
  "resolve_by_preference handle files hmap =
     (case find (\<lambda>file. file \<notin> set (map snd hmap) \<and> file = handle) files of
        Some file \<Rightarrow> Inr file
      | None \<Rightarrow>
          if handle \<in> set files then Inl (FailedToMapHandle handle)
          else (case find (\<lambda>file. file \<notin> set (map snd hmap) \<and>
                             (sublist handle (basename file) \<or>
                              sublist (base_handle_of handle) (basename file))) files of
                  Some file \<Rightarrow> Inr file
                | None \<Rightarrow> Inl (FailedToMapHandle handle)))"

section \<open>Expression translator (\<^verbatim>\<open>query.py\<close>)\<close>

subsection \<open>What the translator is given\<close>

text \<open>
  Modelled from the spec: the expression classes of the module \<^verbatim>\<open>kgtk.kypher.parser\<close>,
  which is not among the sources. The datatype has one constructor for each class that
  \<^verbatim>\<open>expression_to_sql\<close> tells apart, with the attributes that it reads there, and
  \<open>OtherExpression\<close> for any other object. The elements of the list \<^verbatim>\<open>arg2\<close> of an
  \<^verbatim>\<open>Expression2\<close> are property lookups or something else. The constructor for
  \<^verbatim>\<open>parser.Not\<close> is \<open>Not_expr\<close>.
\<close>

datatype lookup = PropertyLookup string | OtherLookup

datatype 'v expr =
    Literal 'v
  | Parameter string
  | Variable string
  | List "'v expr list"
  | Minus "'v expr"
  | Add "'v expr" "'v expr"
  | Sub "'v expr" "'v expr"
  | Multi "'v expr" "'v expr"
  | Div "'v expr" "'v expr"
  | Hat "'v expr" "'v expr"
  | Eq "'v expr" "'v expr"
  | Neq "'v expr" "'v expr"
  | Lt "'v expr" "'v expr"
  | Gt "'v expr" "'v expr"
  | Lte "'v expr" "'v expr"
  | Gte "'v expr" "'v expr"
  | Not_expr "'v expr"
  | And "'v expr" "'v expr"
  | Or "'v expr" "'v expr"
  | Xor "'v expr" "'v expr"
  | Case
  | Call string "'v expr list" bool
  | Expression2 "'v expr" "lookup list"
  | Expression3 "'v expr" "'v expr" string
  | OtherExpression

text \<open>
  Modelled from the spec: the store of \<^verbatim>\<open>kgtk.kypher.sqlstore\<close>, which is not among the
  sources, as the two questions that it answers to the translator. Its
  \<^verbatim>\<open>load_user_function\<close> changes the store only and returns nothing that the translation
  reads, so it has no counterpart.
\<close>

record store =
  is_user_function :: "string \<Rightarrow> bool"
  is_aggregate_function :: "string \<Rightarrow> bool"

text \<open>
  Modelled from the spec: \<^verbatim>\<open>sql_quote_ident\<close> of \<^verbatim>\<open>kgtk.kypher.sqlstore\<close>, which is not
  among the sources. Identifiers are double-quoted with internal double-quotes doubled.
\<close>

definition dquote :: char where
  "dquote = CHR 0x22"

definition sql_quote_ident :: "string \<Rightarrow> string" where
  "sql_quote_ident ident =
     [dquote] @ concat (map (\<lambda>c. if c = dquote then [dquote, dquote] else [c]) ident) @ [dquote]"

text \<open>\<^verbatim>\<open>str.upper\<close> on the ASCII letters; every other character is left as it is.\<close>

definition upper_char :: "char \<Rightarrow> char" where
  "upper_char c =
     (case map_of (zip ''abcdefghijklmnopqrstuvwxyz'' ''ABCDEFGHIJKLMNOPQRSTUVWXYZ'') c of
        Some u \<Rightarrow> u
      | None \<Rightarrow> c)"

definition upper :: "string \<Rightarrow> string" where
  "upper s = map upper_char s"

text \<open>\<^verbatim>\<open>sep.join(xs)\<close>\<close>

fun str_join :: "string \<Rightarrow> string list \<Rightarrow> string" where
  "str_join sep [] = []"
| "str_join sep [x] = x"
| "str_join sep (x # y # ys) = x @ sep @ str_join sep (y # ys)"

text \<open>\<^verbatim>\<open>'(%s %s %s)' % (arg1, op, arg2)\<close>\<close>

definition binary_sql :: "string \<Rightarrow> string \<Rightarrow> string \<Rightarrow> string" where
  "binary_sql arg1 op arg2 = ''('' @ arg1 @ '' '' @ op @ '' '' @ arg2 @ '')''"

subsection \<open>Property lookups\<close>

definition is_kgtk_operator :: "string \<Rightarrow> bool" where
  "is_kgtk_operator op = prefix ''KGTK_'' (upper op)"

text \<open>
  One round of the loop over \<^verbatim>\<open>arg2\<close> for a property lookup: the new value of \<^verbatim>\<open>var\<close>.
  \<^verbatim>\<open>var[:-3]\<close> and \<^verbatim>\<open>var[:-1]\<close> drop the last three characters and the last character,
  whatever they are.
\<close>

definition property_step :: "store \<Rightarrow> string \<Rightarrow> string \<Rightarrow> string" where
  "property_step store var prop =
     (if is_kgtk_operator prop \<and> is_user_function store prop
      then prop @ ''('' @ var @ '')''
      else if suffix (''.'' @ [dquote] @ ''ID'' @ [dquote]) (upper var)
      then take (length var - 3) var @ prop @ [dquote]
      else butlast var @ '';'' @ prop @ [dquote])"

text \<open>
  The loop itself. \<open>None\<close> is the \<^verbatim>\<open>break\<close> with \<^verbatim>\<open>var = None\<close>, after which the function
  raises; \<open>Some\<close> is the \<^verbatim>\<open>return var\<close> of the loop's \<^verbatim>\<open>else\<close>.
\<close>

fun property_lookups :: "store \<Rightarrow> string \<Rightarrow> lookup list \<Rightarrow> string option" where
  "property_lookups store var [] = Some var"
| "property_lookups store var (OtherLookup # rest) = None"
| "property_lookups store var (PropertyLookup prop # rest) =
     property_lookups store (property_step store var prop) rest"

subsection \<open>The translator\<close>

text \<open>
  \<^verbatim>\<open>expression_to_sql\<close>, with the query's \<^verbatim>\<open>parameters\<close> dict and the store as arguments.
  \<^verbatim>\<open>litmap\<close> is passed through and returned, since interning writes to it. \<^verbatim>\<open>varmap\<close> is
  \<open>None\<close> where the caller passes \<^verbatim>\<open>None\<close>. \<open>expressions_to_sql\<close> is the list
  comprehension over the elements of a list or the arguments of a call, left to right.
  The tests \<^verbatim>\<open>op in ('IN')\<close> and \<^verbatim>\<open>op in ('REGEX')\<close> are tests on strings, which hold for
  every contiguous piece of the word.
\<close>

fun expression_to_sql ::
    "store \<Rightarrow> (string \<rightharpoonup> 'v) \<Rightarrow> 'v expr \<Rightarrow> 'v litmap \<Rightarrow> varmap option \<Rightarrow>
       error + (string \<times> 'v litmap)"
and expressions_to_sql ::
    "store \<Rightarrow> (string \<rightharpoonup> 'v) \<Rightarrow> 'v expr list \<Rightarrow> 'v litmap \<Rightarrow> varmap option \<Rightarrow>
       error + (string list \<times> 'v litmap)" where
  "expression_to_sql store params (Literal v) litmap varmap =
     Inr (get_literal_parameter v litmap)"
| "expression_to_sql store params (Parameter name) litmap varmap =
     (case params name of
        None \<Rightarrow> Inl (UndefinedParameter name)
      | Some v \<Rightarrow> Inr (get_literal_parameter v litmap))"
| "expression_to_sql store params (Variable query_var) litmap varmap =
     (case varmap of
        None \<Rightarrow> Inl (IllegalContext query_var)
      | Some vm \<Rightarrow>
          if query_var = ''*'' then Inr (query_var, litmap)
          else (case vm query_var of
                  None \<Rightarrow> Inl (UndefinedVariable query_var)
                | Some [] \<Rightarrow> Inl IndexError
                | Some ((graph, col) # _) \<Rightarrow>
                    Inr (graph @ ''.'' @ sql_quote_ident col, litmap)))"
| "expression_to_sql store params (List elements) litmap varmap =
     (case expressions_to_sql store params elements litmap None of
        Inl e \<Rightarrow> Inl e
      | Inr (texts, litmap1) \<Rightarrow> Inr (''('' @ str_join '', '' texts @ '')'', litmap1))"
| "expression_to_sql store params (Minus arg) litmap varmap =
     (case expression_to_sql store params arg litmap varmap of
        Inl e \<Rightarrow> Inl e
      | Inr (a, litmap1) \<Rightarrow> Inr (''(- '' @ a @ '')'', litmap1))"
| "expression_to_sql store params (Add arg1 arg2) litmap varmap =
     (case expression_to_sql store params arg1 litmap varmap of
        Inl e \<Rightarrow> Inl e
      | Inr (a1, litmap1) \<Rightarrow>
          (case expression_to_sql store params arg2 litmap1 varmap of
             Inl e \<Rightarrow> Inl e
           | Inr (a2, litmap2) \<Rightarrow> Inr (binary_sql a1 ''+'' a2, litmap2)))"
| "expression_to_sql store params (Sub arg1 arg2) litmap varmap =
     (case expression_to_sql store params arg1 litmap varmap of
        Inl e \<Rightarrow> Inl e
      | Inr (a1, litmap1) \<Rightarrow>
          (case expression_to_sql store params arg2 litmap1 varmap of
             Inl e \<Rightarrow> Inl e
           | Inr (a2, litmap2) \<Rightarrow> Inr (binary_sql a1 ''-'' a2, litmap2)))"
| "expression_to_sql store params (Multi arg1 arg2) litmap varmap =
     (case expression_to_sql store params arg1 litmap varmap of
        Inl e \<Rightarrow> Inl e
      | Inr (a1, litmap1) \<Rightarrow>
          (case expression_to_sql store params arg2 litmap1 varmap of
             Inl e \<Rightarrow> Inl e
           | Inr (a2, litmap2) \<Rightarrow> Inr (binary_sql a1 ''*'' a2, litmap2)))"
| "expression_to_sql store params (Div arg1 arg2) litmap varmap =
     (case expression_to_sql store params arg1 litmap varmap of
        Inl e \<Rightarrow> Inl e
      | Inr (a1, litmap1) \<Rightarrow>
          (case expression_to_sql store params arg2 litmap1 varmap of
             Inl e \<Rightarrow> Inl e
           | Inr (a2, litmap2) \<Rightarrow> Inr (binary_sql a1 ''/'' a2, litmap2)))"
| "expression_to_sql store params (Eq arg1 arg2) litmap varmap =
     (case expression_to_sql store params arg1 litmap varmap of
        Inl e \<Rightarrow> Inl e
      | Inr (a1, litmap1) \<Rightarrow>
          (case expression_to_sql store params arg2 litmap1 varmap of
             Inl e \<Rightarrow> Inl e
           | Inr (a2, litmap2) \<Rightarrow> Inr (binary_sql a1 ''='' a2, litmap2)))"
| "expression_to_sql store params (Neq arg1 arg2) litmap varmap =
     (case expression_to_sql store params arg1 litmap varmap of
        Inl e \<Rightarrow> Inl e
      | Inr (a1, litmap1) \<Rightarrow>
          (case expression_to_sql store params arg2 litmap1 varmap of
             Inl e \<Rightarrow> Inl e
           | Inr (a2, litmap2) \<Rightarrow> Inr (binary_sql a1 ''!='' a2, litmap2)))"
| "expression_to_sql store params (Lt arg1 arg2) litmap varmap =
     (case expression_to_sql store params arg1 litmap varmap of
        Inl e \<Rightarrow> Inl e
      | Inr (a1, litmap1) \<Rightarrow>
          (case expression_to_sql store params arg2 litmap1 varmap of
             Inl e \<Rightarrow> Inl e
           | Inr (a2, litmap2) \<Rightarrow> Inr (binary_sql a1 ''<'' a2, litmap2)))"
| "expression_to_sql store params (Gt arg1 arg2) litmap varmap =
     (case expression_to_sql store params arg1 litmap varmap of
        Inl e \<Rightarrow> Inl e
      | Inr (a1, litmap1) \<Rightarrow>
          (case expression_to_sql store params arg2 litmap1 varmap of
             Inl e \<Rightarrow> Inl e
           | Inr (a2, litmap2) \<Rightarrow> Inr (binary_sql a1 ''>'' a2, litmap2)))"
| "expression_to_sql store params (Lte arg1 arg2) litmap varmap =
     (case expression_to_sql store params arg1 litmap varmap of
        Inl e \<Rightarrow> Inl e
      | Inr (a1, litmap1) \<Rightarrow>
          (case expression_to_sql store params arg2 litmap1 varmap of
             Inl e \<Rightarrow> Inl e
           | Inr (a2, litmap2) \<Rightarrow> Inr (binary_sql a1 ''<='' a2, litmap2)))"
| "expression_to_sql store params (Gte arg1 arg2) litmap varmap =
     (case expression_to_sql store params arg1 litmap varmap of
        Inl e \<Rightarrow> Inl e
      | Inr (a1, litmap1) \<Rightarrow>
          (case expression_to_sql store params arg2 litmap1 varmap of
             Inl e \<Rightarrow> Inl e
           | Inr (a2, litmap2) \<Rightarrow> Inr (binary_sql a1 ''>='' a2, litmap2)))"
| "expression_to_sql store params (And arg1 arg2) litmap varmap =
     (case expression_to_sql store params arg1 litmap varmap of
        Inl e \<Rightarrow> Inl e
      | Inr (a1, litmap1) \<Rightarrow>
          (case expression_to_sql store params arg2 litmap1 varmap of
             Inl e \<Rightarrow> Inl e
           | Inr (a2, litmap2) \<Rightarrow> Inr (binary_sql a1 ''AND'' a2, litmap2)))"
| "expression_to_sql store params (Or arg1 arg2) litmap varmap =
     (case expression_to_sql store params arg1 litmap varmap of
        Inl e \<Rightarrow> Inl e
      | Inr (a1, litmap1) \<Rightarrow>
          (case expression_to_sql store params arg2 litmap1 varmap of
             Inl e \<Rightarrow> Inl e
           | Inr (a2, litmap2) \<Rightarrow> Inr (binary_sql a1 ''OR'' a2, litmap2)))"
| "expression_to_sql store params (Hat arg1 arg2) litmap varmap =
     Inl (UnsupportedOperator ''^'')"
| "expression_to_sql store params (Not_expr arg) litmap varmap =
     (case expression_to_sql store params arg litmap varmap of
        Inl e \<Rightarrow> Inl e
      | Inr (a, litmap1) \<Rightarrow> Inr (''(NOT '' @ a @ '')'', litmap1))"
| "expression_to_sql store params (Xor arg1 arg2) litmap varmap =
     Inl (UnsupportedOperator ''XOR'')"
| "expression_to_sql store params Case litmap varmap =
     Inl (UnsupportedOperator ''CASE'')"
| "expression_to_sql store params (Call function args is_distinct) litmap varmap =
     (if upper function = ''CAST'' then
        (case args of
           [arg0, Variable typ] \<Rightarrow>
             (case expression_to_sql store params arg0 litmap varmap of
                Inl e \<Rightarrow> Inl e
              | Inr (a, litmap1) \<Rightarrow> Inr (''CAST('' @ a @ '' AS '' @ typ @ '')'', litmap1))
         | _ \<Rightarrow> Inl IllegalCast)
      else
        (case expressions_to_sql store params args litmap varmap of
           Inl e \<Rightarrow> Inl e
         | Inr (texts, litmap1) \<Rightarrow>
             Inr (function @ ''('' @ (if is_distinct then ''DISTINCT '' else []) @
                  str_join '', '' texts @ '')'', litmap1)))"
| "expression_to_sql store params (Expression2 arg1 arg2) litmap varmap =
     (case arg1 of
        Variable query_var \<Rightarrow>
          (case expression_to_sql store params arg1 litmap varmap of
             Inl e \<Rightarrow> Inl e
           | Inr (var, litmap1) \<Rightarrow>
               (case property_lookups store var arg2 of
                  Some var' \<Rightarrow> Inr (var', litmap1)
                | None \<Rightarrow> Inl UnhandledPropertyLookup))
      | _ \<Rightarrow> Inl UnhandledPropertyLookup)"
| "expression_to_sql store params (Expression3 arg1 arg2 operator) litmap varmap =
     (case expression_to_sql store params arg1 litmap varmap of
        Inl e \<Rightarrow> Inl e
      | Inr (a1, litmap1) \<Rightarrow>
          (case expression_to_sql store params arg2 litmap1 varmap of
             Inl e \<Rightarrow> Inl e
           | Inr (a2, litmap2) \<Rightarrow>
               if sublist (upper operator) ''IN''
               then Inr (binary_sql a1 (upper operator) a2, litmap2)
               else if sublist (upper operator) ''REGEX''
               then Inr (''KGTK_REGEX('' @ a1 @ '', '' @ a2 @ '')'', litmap2)
               else Inl (UnhandledOperator (upper operator))))"
| "expression_to_sql store params OtherExpression litmap varmap =
     Inl UnhandledExpressionType"
| "expressions_to_sql store params [] litmap varmap = Inr ([], litmap)"
| "expressions_to_sql store params (elt # elts) litmap varmap =
     (case expression_to_sql store params elt litmap varmap of
        Inl e \<Rightarrow> Inl e
      | Inr (a, litmap1) \<Rightarrow>
          (case expressions_to_sql store params elts litmap1 varmap of
             Inl e \<Rightarrow> Inl e
           | Inr (rest, litmap2) \<Rightarrow> Inr (a # rest, litmap2)))"

text \<open>
  \<^verbatim>\<open>limit_clauses_to_sql\<close>. A clause is given by its \<^verbatim>\<open>expression\<close>, \<open>None\<close> standing for
  an absent clause. Both expressions are translated with \<^verbatim>\<open>None\<close> for the variable map,
  whatever \<^verbatim>\<open>varmap\<close> the caller has.
\<close>

definition limit_clauses_to_sql ::
    "store \<Rightarrow> (string \<rightharpoonup> 'v) \<Rightarrow> 'v expr option \<Rightarrow> 'v expr option \<Rightarrow> 'v litmap \<Rightarrow>
       varmap option \<Rightarrow> error + (string option \<times> 'v litmap)" where
  "limit_clauses_to_sql store params skip_clause limit_clause litmap varmap =
     (if skip_clause = None \<and> limit_clause = None then Inr (None, litmap)
      else
        (case (case limit_clause of
                 Some limit_expression \<Rightarrow>
                   (case expression_to_sql store params limit_expression litmap None of
                      Inl e \<Rightarrow> Inl e
                    | Inr (text, litmap1) \<Rightarrow> Inr (''LIMIT'' @ '' '' @ text, litmap1))
               | None \<Rightarrow> Inr (''LIMIT'' @ '' -1'', litmap)) of
           Inl e \<Rightarrow> Inl e
         | Inr (limit, litmap1) \<Rightarrow>
             (case skip_clause of
                Some skip_expression \<Rightarrow>
                  (case expression_to_sql store params skip_expression litmap1 None of
                     Inl e \<Rightarrow> Inl e
                   | Inr (text, litmap2) \<Rightarrow> Inr (Some (limit @ '' OFFSET '' @ text), litmap2))
              | None \<Rightarrow> Inr (Some limit, litmap1))))"

text \<open>
  The expressions in which the translator, on its way through the expression, comes to
  translate a variable: the sub-expressions that it descends into, in the translator's
  own case distinction. The type name of a \<^verbatim>\<open>CAST\<close> is read, not translated.
\<close>

fun reaches_variable :: "'v expr \<Rightarrow> bool" where
  "reaches_variable (Variable query_var) = True"
| "reaches_variable (List elements) = (\<exists>elt \<in> set elements. reaches_variable elt)"
| "reaches_variable (Minus arg) = reaches_variable arg"
| "reaches_variable (Add arg1 arg2) = (reaches_variable arg1 \<or> reaches_variable arg2)"
| "reaches_variable (Sub arg1 arg2) = (reaches_variable arg1 \<or> reaches_variable arg2)"
| "reaches_variable (Multi arg1 arg2) = (reaches_variable arg1 \<or> reaches_variable arg2)"
| "reaches_variable (Div arg1 arg2) = (reaches_variable arg1 \<or> reaches_variable arg2)"
| "reaches_variable (Eq arg1 arg2) = (reaches_variable arg1 \<or> reaches_variable arg2)"
| "reaches_variable (Neq arg1 arg2) = (reaches_variable arg1 \<or> reaches_variable arg2)"
| "reaches_variable (Lt arg1 arg2) = (reaches_variable arg1 \<or> reaches_variable arg2)"
| "reaches_variable (Gt arg1 arg2) = (reaches_variable arg1 \<or> reaches_variable arg2)"
| "reaches_variable (Lte arg1 arg2) = (reaches_variable arg1 \<or> reaches_variable arg2)"
| "reaches_variable (Gte arg1 arg2) = (reaches_variable arg1 \<or> reaches_variable arg2)"
| "reaches_variable (Not_expr arg) = reaches_variable arg"
| "reaches_variable (And arg1 arg2) = (reaches_variable arg1 \<or> reaches_variable arg2)"
| "reaches_variable (Or arg1 arg2) = (reaches_variable arg1 \<or> reaches_variable arg2)"
| "reaches_variable (Call function args is_distinct) =
     (if upper function = ''CAST''
      then (case args of [arg0, Variable typ] \<Rightarrow> reaches_variable arg0 | _ \<Rightarrow> False)
      else (\<exists>arg \<in> set args. reaches_variable arg))"
| "reaches_variable (Expression2 arg1 arg2) = (case arg1 of Variable query_var \<Rightarrow> True | _ \<Rightarrow> False)"
| "reaches_variable (Expression3 arg1 arg2 operator) = (reaches_variable arg1 \<or> reaches_variable arg2)"
| "reaches_variable _ = False"

text \<open>A store with one user function and one aggregate function.\<close>

definition example_store :: store where
  "example_store = \<lparr>is_user_function = (\<lambda>f. f = ''kgtk_year''),
                     is_aggregate_function = (\<lambda>f. f = ''count'')\<rparr>"

section \<open>Return-clause synthesis (\<^verbatim>\<open>query.py\<close>)\<close>












chapter \<open>Properties\<close>

section \<open>Properties: Errors and string utilities\<close>

subsection \<open>Facts about the decimal rendering\<close>

lemma digit_char_inj: "n < 10 \<Longrightarrow> m < 10 \<Longrightarrow> digit_char n = digit_char m \<Longrightarrow> n = m"
proof -
  assume a: "n < 10" "m < 10" "digit_char n = digit_char m"
  have d: "distinct ''0123456789''" by simp
  have l: "length ''0123456789'' = 10" by simp
  from a show ?thesis unfolding digit_char_def
    using nth_eq_iff_index_eq[OF d, of n m] l by simp
qed

lemma digit_char_not_marker: "n < 10 \<Longrightarrow> digit_char n \<noteq> CHR ''?''"
proof -
  assume "n < 10"
  then have "digit_char n \<in> set ''0123456789''"
    unfolding digit_char_def by (intro nth_mem) simp
  then show ?thesis by auto
qed

lemma str_of_nat_nonempty: "str_of_nat n \<noteq> []"
  by (subst str_of_nat.simps) simp

lemma str_of_nat_no_marker: "CHR ''?'' \<notin> set (str_of_nat n)"
proof (induction n rule: str_of_nat.induct)
  case (1 n)
  show ?case
  proof (cases "n < 10")
    case True
    then show ?thesis using digit_char_not_marker[of n] by (subst str_of_nat.simps) auto
  next
    case False
    have "n mod 10 < 10" by simp
    then have "digit_char (n mod 10) \<noteq> CHR ''?''" by (rule digit_char_not_marker)
    with False 1 show ?thesis by (subst str_of_nat.simps) auto
  qed
qed

lemma str_of_nat_inj: "str_of_nat n = str_of_nat m \<Longrightarrow> n = m"
proof (induction n arbitrary: m rule: str_of_nat.induct)
  case (1 n)
  show ?case
  proof (cases "n < 10")
    case n: True
    show ?thesis
    proof (cases "m < 10")
      case True
      with n 1(2) show ?thesis
        using digit_char_inj[of n m] by (simp add: str_of_nat.simps[of n] str_of_nat.simps[of m])
    next
      case False
      with n 1(2) str_of_nat_nonempty[of "m div 10"] show ?thesis
        by (simp add: str_of_nat.simps[of n] str_of_nat.simps[of m])
    qed
  next
    case n: False
    show ?thesis
    proof (cases "m < 10")
      case True
      with n 1(2) str_of_nat_nonempty[of "n div 10"] show ?thesis
        by (simp add: str_of_nat.simps[of n] str_of_nat.simps[of m])
    next
      case False
      with n 1(2) have e: "str_of_nat (n div 10) = str_of_nat (m div 10)"
        and d: "digit_char (n mod 10) = digit_char (m mod 10)"
        by (simp_all add: str_of_nat.simps[of n] str_of_nat.simps[of m])
      from 1(1)[OF n e] have "n div 10 = m div 10" .
      moreover from d have "n mod 10 = m mod 10" by (intro digit_char_inj) simp_all
      ultimately show ?thesis by (metis div_mult_mod_eq)
    qed
  qed
qed

section \<open>Properties: Literal parameter table (\<^verbatim>\<open>query.py\<close>)\<close>

subsection \<open>Facts about interning\<close>

lemma placeholder_token_inj: "placeholder_token n = placeholder_token m \<Longrightarrow> n = m"
  by (auto simp add: placeholder_token_def dest: str_of_nat_inj)

lemma intern_seq_Nil: "intern_seq m [] = m"
  by (simp add: intern_seq_def)

lemma intern_seq_Cons: "intern_seq m (v # vs) = intern_seq (snd (get_literal_parameter v m)) vs"
  by (simp add: intern_seq_def)

lemma intern_seq_snoc: "intern_seq m (vs @ [v]) = snd (get_literal_parameter v (intern_seq m vs))"
  by (simp add: intern_seq_def)

lemma get_literal_parameter_keeps:
  "map_of m v = Some p \<Longrightarrow> map_of (snd (get_literal_parameter w m)) v = Some p"
  by (auto simp: get_literal_parameter_def Let_def map_add_def split: option.splits)

lemma intern_seq_keeps:
  "map_of m v = Some p \<Longrightarrow> map_of (intern_seq m ws) v = Some p"
  by (induction ws arbitrary: m) (simp_all add: intern_seq_Nil intern_seq_Cons get_literal_parameter_keeps)

lemma get_literal_parameter_records:
  "get_literal_parameter v m = (p, m') \<Longrightarrow> map_of m' v = Some p"
  by (auto simp: get_literal_parameter_def Let_def map_add_def split: option.splits)

lemma get_literal_parameter_hit:
  "map_of m v = Some p \<Longrightarrow> get_literal_parameter v m = (p, m)"
  by (simp add: get_literal_parameter_def)

lemma minted_Nil: "minted []"
  by (simp add: minted_def)

lemma map_of_None_notin: "map_of m v = None \<Longrightarrow> v \<notin> fst ` set m"
  by (simp add: map_of_eq_None_iff)

lemma minted_get_literal_parameter:
  "minted m \<Longrightarrow> minted (snd (get_literal_parameter v m))"
  by (auto simp: minted_def get_literal_parameter_def Let_def map_of_eq_None_iff split: option.splits)

lemma minted_intern_seq: "minted m \<Longrightarrow> minted (intern_seq m vs)"
  by (induction vs arbitrary: m) (simp_all add: intern_seq_Nil intern_seq_Cons minted_get_literal_parameter)

lemma minted_intern_all: "minted (intern_all vs)"
  by (simp add: intern_all_def minted_intern_seq minted_Nil)

lemma minted_distinct_tokens: "minted m \<Longrightarrow> distinct (map snd m)"
  by (auto simp: minted_def distinct_map inj_on_def dest: placeholder_token_inj)

lemma keys_get_literal_parameter:
  "fst ` set (snd (get_literal_parameter v m)) = insert v (fst ` set m)"
  by (auto simp: get_literal_parameter_def Let_def split: option.splits dest: map_of_SomeD)
     (metis fst_conv image_eqI map_of_SomeD)

lemma keys_intern_seq: "fst ` set (intern_seq m vs) = fst ` set m \<union> set vs"
  by (induction vs arbitrary: m) (auto simp add: intern_seq_Nil intern_seq_Cons keys_get_literal_parameter)

lemma minted_tokens_differ:
  assumes "minted m" "(x, p) \<in> set m" "(y, q) \<in> set m" "x \<noteq> y"
  shows "p \<noteq> q"
proof
  assume "p = q"
  from assms(1) have d: "distinct (map snd m)" by (rule minted_distinct_tokens)
  from assms(2,3) \<open>p = q\<close> have "(x, p) = (y, q)"
    using d by (metis distinct_map inj_on_def snd_conv)
  with assms(4) show False by simp
qed

text \<open>
  C8. Interning is idempotent and deterministic. If a call for \<open>v\<close> returned the token
  \<open>p\<close>, every later call for \<open>v\<close>, after any further interning, returns \<open>p\<close> again and
  leaves the map as it is. A value that is not yet a key gets the token \<^verbatim>\<open>???N??\<close> with
  \<open>N\<close> the number of entries before the insertion, and is appended with it. In a map
  built by intern calls from the empty dict the keys are distinct (so the number of entries
  is the dict's size), they are exactly the interned values, and distinct values hold
  distinct tokens.
\<close>

theorem intern_idempotent_deterministic:
  "(\<forall>p m' ws. get_literal_parameter v litmap = (p, m') \<longrightarrow>
       get_literal_parameter v (intern_seq m' ws) = (p, intern_seq m' ws)) \<and>
   (map_of litmap v = None \<longrightarrow>
       get_literal_parameter v litmap =
         (''???'' @ str_of_nat (length litmap) @ ''??'',
          litmap @ [(v, ''???'' @ str_of_nat (length litmap) @ ''??'')])) \<and>
   distinct (map fst (intern_all vs)) \<and>
   fst ` set (intern_all vs) = set vs \<and>
   (\<forall>x y p q. (x, p) \<in> set (intern_all vs) \<and> (y, q) \<in> set (intern_all vs) \<and> x \<noteq> y \<longrightarrow> p \<noteq> q)"
proof (intro conjI allI impI)
  fix p m' ws
  assume "get_literal_parameter v litmap = (p, m')"
  then have "map_of m' v = Some p" by (rule get_literal_parameter_records)
  then have "map_of (intern_seq m' ws) v = Some p" by (rule intern_seq_keeps)
  then show "get_literal_parameter v (intern_seq m' ws) = (p, intern_seq m' ws)"
    by (rule get_literal_parameter_hit)
next
  assume "map_of litmap v = None"
  then show "get_literal_parameter v litmap =
         (''???'' @ str_of_nat (length litmap) @ ''??'',
          litmap @ [(v, ''???'' @ str_of_nat (length litmap) @ ''??'')])"
    by (simp add: get_literal_parameter_def placeholder_token_def Let_def)
next
  show "distinct (map fst (intern_all vs))"
    using minted_intern_all[of vs] by (simp add: minted_def)
next
  show "fst ` set (intern_all vs) = set vs"
    by (simp add: intern_all_def keys_intern_seq)
next
  fix x y p q
  assume "(x, p) \<in> set (intern_all vs) \<and> (y, q) \<in> set (intern_all vs) \<and> x \<noteq> y"
  then show "p \<noteq> q"
    using minted_tokens_differ[OF minted_intern_all, of x p vs y q] by blast
qed

text \<open>
  The theorem at the map \<^verbatim>\<open>{'loves': '???0??'}\<close>: \<^verbatim>\<open>'name'\<close> is new and gets
  \<^verbatim>\<open>???1??\<close>; asked again after interning \<^verbatim>\<open>'x'\<close>, it still gets \<^verbatim>\<open>???1??\<close>.
\<close>

theorem intern_idempotent_deterministic_witness:
  "get_literal_parameter ''name'' [(''loves'', ''???0??'')] =
     (''???1??'', [(''loves'', ''???0??''), (''name'', ''???1??'')]) \<and>
   get_literal_parameter ''name'' (intern_seq [(''loves'', ''???0??''), (''name'', ''???1??'')] [''x'']) =
     (''???1??'', intern_seq [(''loves'', ''???0??''), (''name'', ''???1??'')] [''x''])"
proof -
  note T = intern_idempotent_deterministic[of "''name''" "[(''loves'', ''???0??'')]" "[] :: string list"]
  have n: "map_of [(''loves'', ''???0??'')] ''name'' = None" by simp
  have s: "str_of_nat (length [(''loves'', ''???0??'')]) = ''1''"
    by (simp add: str_of_nat.simps digit_char_def)
  from T[THEN conjunct2, THEN conjunct1, rule_format, OF n]
  have g: "get_literal_parameter ''name'' [(''loves'', ''???0??'')] =
     (''???1??'', [(''loves'', ''???0??''), (''name'', ''???1??'')])"
    unfolding s by simp
  from T[THEN conjunct1, rule_format, OF g, of "[''x'']"] g show ?thesis by (rule conjI[rotated])
qed

section \<open>Properties: Edge reader (\<^verbatim>\<open>edgereader.py\<close>)\<close>

subsection \<open>Facts about the edge reader\<close>

lemma fill_missing_replicate:
  "fill_missing count values = values @ replicate (nat count - length values) ''''"
proof (induction count "values" rule: fill_missing.induct)
  case (1 count "values")
  show ?case
  proof (cases "int (length values) < count")
    case True
    then have "nat count - length values = Suc (nat count - Suc (length values))" by linarith
    with True 1 show ?thesis
      by (subst fill_missing.simps) (simp add: replicate_app_Cons_same)
  next
    case False
    then have "nat count - length values = 0" by linarith
    with False show ?thesis by (subst fill_missing.simps) simp
  qed
qed

text \<open>
  C10. With \<^verbatim>\<open>fill_missing_columns\<close> and \<^verbatim>\<open>prohibit_extra_columns\<close> set, a list that
  \<^verbatim>\<open>__next__\<close> returns has exactly \<^verbatim>\<open>column_count\<close> fields: it is the split line followed
  by the empty strings that bring it up to \<^verbatim>\<open>column_count\<close>; and a line that splits into
  more than \<^verbatim>\<open>column_count\<close> fields raises \<^verbatim>\<open>ValueError\<close> instead of returning.
\<close>

theorem edge_next_column_count:
  "(fill_missing_columns r \<and> prohibit_extra_columns r \<and> edge_next r = (Inr values, r') \<longrightarrow>
      int (length values) = column_count r \<and>
      (\<exists>line rest cells.
          input_lines r = line # rest \<and>
          py_split (column_separator r) line = Inr cells \<and>
          values = cells @ replicate (nat (column_count r) - length cells) '''')) \<and>
   (prohibit_extra_columns r \<and> input_lines r = line # rest \<and>
    py_split (column_separator r) line = Inr cells \<and> int (length cells) > column_count r \<longrightarrow>
      fst (edge_next r) = Inl (ValueError ''Required columns in input line (extra)''))"
proof (rule conjI; rule impI)
  assume a: "fill_missing_columns r \<and> prohibit_extra_columns r \<and> edge_next r = (Inr values, r')"
  then obtain line rest where l: "input_lines r = line # rest"
    by (cases "input_lines r") (auto simp: edge_next_def Let_def)
  with a obtain cells where f: "py_split (column_separator r) line = Inr cells"
    by (cases "py_split (column_separator r) line") (auto simp: edge_next_def Let_def)
  from a l f have le: "int (length cells) \<le> column_count r"
    by (auto simp: edge_next_def Let_def split: if_splits)
  from a l f have v: "values = cells @ replicate (nat (column_count r) - length cells) ''''"
    by (auto simp: edge_next_def Let_def fill_missing_replicate split: if_splits)
  from v le have "int (length values) = column_count r" by simp
  with l f v show "int (length values) = column_count r \<and>
      (\<exists>line rest cells.
          input_lines r = line # rest \<and>
          py_split (column_separator r) line = Inr cells \<and>
          values = cells @ replicate (nat (column_count r) - length cells) '''')"
    by blast
next
  assume "prohibit_extra_columns r \<and> input_lines r = line # rest \<and>
    py_split (column_separator r) line = Inr cells \<and> int (length cells) > column_count r"
  then show "fst (edge_next r) = Inl (ValueError ''Required columns in input line (extra)'')"
    by (simp add: edge_next_def Let_def)
qed

lemma example_split1: "str_split ''|'' ''Hans|loves|Molly'' = [''Hans'', ''loves'', ''Molly'']"
  by code_simp

lemma example_split2: "str_split ''|'' ''a|b|c|d|e'' = [''a'', ''b'', ''c'', ''d'', ''e'']"
  by code_simp

lemma example_next1: "edge_next example_reader =
    (Inr [''Hans'', ''loves'', ''Molly'', ''''],
     example_reader\<lparr>input_lines := [''a|b|c|d|e''], line_count := 2\<rparr>)"
  by (simp add: edge_next_def Let_def example_reader_def py_split_def example_split1 fill_missing_replicate
        del: str_split.simps)

theorem edge_next_column_count_witness:
  "edge_next example_reader =
     (Inr [''Hans'', ''loves'', ''Molly'', ''''],
      example_reader\<lparr>input_lines := [''a|b|c|d|e''], line_count := 2\<rparr>) \<and>
   int (length [''Hans'', ''loves'', ''Molly'', '''']) = column_count example_reader \<and>
   fst (edge_next (example_reader\<lparr>input_lines := [''a|b|c|d|e'']\<rparr>)) =
     Inl (ValueError ''Required columns in input line (extra)'')"
proof -
  let ?r' = "example_reader\<lparr>input_lines := [''a|b|c|d|e''], line_count := 2\<rparr>"
  let ?r2 = "example_reader\<lparr>input_lines := [''a|b|c|d|e'']\<rparr>"
  have h1: "fill_missing_columns example_reader \<and> prohibit_extra_columns example_reader \<and>
      edge_next example_reader = (Inr [''Hans'', ''loves'', ''Molly'', ''''], ?r')"
    using example_next1 by (simp add: example_reader_def)
  have h2: "prohibit_extra_columns ?r2 \<and> input_lines ?r2 = ''a|b|c|d|e'' # [] \<and>
      py_split (column_separator ?r2) ''a|b|c|d|e'' = Inr [''a'', ''b'', ''c'', ''d'', ''e''] \<and>
      int (length [''a'', ''b'', ''c'', ''d'', ''e'']) > column_count ?r2"
    using example_split2 by (simp add: example_reader_def py_split_def del: str_split.simps)
  from edge_next_column_count[THEN conjunct1, rule_format, OF h1]
  have c1: "int (length [''Hans'', ''loves'', ''Molly'', '''']) = column_count example_reader"
    by (rule conjunct1)
  from edge_next_column_count[THEN conjunct2, rule_format, OF h2]
  have c2: "fst (edge_next ?r2) = Inl (ValueError ''Required columns in input line (extra)'')" .
  from example_next1 c1 c2 show ?thesis by (intro conjI)
qed

section \<open>Properties: Variable binding map (\<^verbatim>\<open>query.py\<close>)\<close>

subsection \<open>Facts about the variable binding map\<close>

lemma best_var_scan_Some_mem:
  "best_var_scan g (Some b) xs = Some c \<Longrightarrow> c = b \<or> c \<in> set xs"
  by (induction xs arbitrary: b) (auto split: if_splits)

lemma best_var_scan_None_mem:
  "best_var_scan g None xs = Some c \<Longrightarrow> c \<in> set xs"
  by (cases xs) (auto dest: best_var_scan_Some_mem)

lemma best_var_scan_nonempty:
  "xs \<noteq> [] \<Longrightarrow> \<exists>c. best_var_scan g None xs = Some c"
proof -
  have "\<exists>c. best_var_scan g (Some b) ys = Some c" for b ys
    by (induction ys arbitrary: b) auto
  then show "xs \<noteq> [] \<Longrightarrow> \<exists>c. best_var_scan g None xs = Some c"
    by (cases xs) auto
qed

lemma register_joins_step:
  assumes "register_clause_variable v r (vm, j) = Inr (vm', j')"
  shows "j' = j \<or> (\<exists>b. b \<noteq> r \<and> j' = insert (min b r, max b r) j)"
  using assms
  by (auto simp: register_clause_variable_def split: option.splits if_splits)

lemma canonical_register:
  assumes "canonical j" "register_clause_variable v r (vm, j) = Inr (vm', j')"
  shows "canonical j'"
proof -
  from register_joins_step[OF assms(2)]
  consider "j' = j" | b where "b \<noteq> r" "j' = insert (min b r, max b r) j" by blast
  then show ?thesis
  proof cases
    case 1
    with assms(1) show ?thesis by simp
  next
    case 2
    from \<open>b \<noteq> r\<close> have "min b r < max b r" by (auto simp: min_def max_def)
    with 2 assms(1) show ?thesis by (auto simp: canonical_def)
  qed
qed

lemma reachable_canonical: "reachable st \<Longrightarrow> canonical (snd st)"
proof (induction rule: reachable.induct)
  case initial
  show ?case by (simp add: canonical_def)
next
  case (register st query_var sql_var st')
  then show ?case using canonical_register[of "snd st" query_var sql_var "fst st" "fst st'" "snd st'"]
    by simp
next
  case (reorder varmap joins varmap')
  then show ?case by simp
qed

text \<open>
  C4. In every reachable state each pair of \<^verbatim>\<open>joins\<close> has its smaller component first,
  no pair is reflexive, and no pair is present together with its flip.
\<close>

theorem joins_canonical:
  "reachable (varmap, joins) \<Longrightarrow>
     (\<forall>a1 c1 a2 c2. ((a1, c1), (a2, c2)) \<in> joins \<longrightarrow> (a1, c1) < (a2, c2)) \<and>
     (\<forall>x. (x, x) \<notin> joins) \<and>
     (\<forall>a b. (a, b) \<in> joins \<longrightarrow> (b, a) \<notin> joins)"
proof -
  assume "reachable (varmap, joins)"
  then have c: "\<And>a b. (a, b) \<in> joins \<Longrightarrow> a < b"
    using reachable_canonical[of "(varmap, joins)"] unfolding canonical_def snd_conv by blast
  have "(x, x) \<notin> joins" for x using c[of x x] by auto
  moreover have "(b, a) \<notin> joins" if "(a, b) \<in> joins" for a b
    using c[of a b] c[of b a] that by auto
  ultimately show ?thesis using c by blast
qed

lemma example_less: "(''g_c1'', ''node1'') < (''g_c1'', ''node2'')"
  by simp

lemma example_register1:
  "register_clause_variable ''a'' (''g_c1'', ''node1'') (Map.empty, {}) =
     Inr ([''a'' \<mapsto> [(''g_c1'', ''node1'')]], {})"
  by (simp add: register_clause_variable_def)

lemma example_register2:
  "register_clause_variable ''a'' (''g_c1'', ''node2'') ([''a'' \<mapsto> [(''g_c1'', ''node1'')]], {}) =
     Inr ([''a'' \<mapsto> [(''g_c1'', ''node1''), (''g_c1'', ''node2'')]],
          {((''g_c1'', ''node1''), (''g_c1'', ''node2''))})"
  by (simp add: register_clause_variable_def set_add_def min_def max_def)

lemma example_reachable2:
  "reachable ([''a'' \<mapsto> [(''g_c1'', ''node1''), (''g_c1'', ''node2'')]],
              {((''g_c1'', ''node1''), (''g_c1'', ''node2''))})"
  using reachable.register[OF reachable.register[OF reachable.initial example_register1] example_register2] .

theorem joins_canonical_witness:
  "reachable ([''a'' \<mapsto> [(''g_c1'', ''node1''), (''g_c1'', ''node2'')]],
              {((''g_c1'', ''node1''), (''g_c1'', ''node2''))}) \<and>
   (''g_c1'', ''node1'') < (''g_c1'', ''node2'') \<and>
   ((''g_c1'', ''node2''), (''g_c1'', ''node1'')) \<notin> {((''g_c1'', ''node1''), (''g_c1'', ''node2''))}"
  using joins_canonical[OF example_reachable2] example_reachable2 by simp

lemma set_add_member: "x \<in> set xs \<Longrightarrow> set_add xs x = xs"
  by (simp add: set_add_def)

text \<open>
  C3 (as the code has it). Registering a pair that the variable's set already holds
  leaves \<^verbatim>\<open>varmap\<close> unchanged. \<^verbatim>\<open>joins\<close> is unchanged when the scan's best reference is
  the pair itself, as it is when the pair is the only reference; otherwise \<^verbatim>\<open>joins\<close>
  gains the sorted pair of the best reference and the registered pair.
\<close>

theorem register_existing_reference:
  "varmap query_var = Some sql_vars \<Longrightarrow> sql_var \<in> set sql_vars \<Longrightarrow>
     (\<exists>best_var. best_var \<in> set sql_vars \<and>
        best_var_scan (fst sql_var) None sql_vars = Some best_var \<and>
        register_clause_variable query_var sql_var (varmap, joins) =
          Inr (varmap,
               if best_var = sql_var then joins
               else insert (min best_var sql_var, max best_var sql_var) joins)) \<and>
     (sql_vars = [sql_var] \<longrightarrow>
        register_clause_variable query_var sql_var (varmap, joins) = Inr (varmap, joins))"
proof -
  assume v: "varmap query_var = Some sql_vars" and m: "sql_var \<in> set sql_vars"
  from m have "sql_vars \<noteq> []" by auto
  then obtain best_var where b: "best_var_scan (fst sql_var) None sql_vars = Some best_var"
    using best_var_scan_nonempty by blast
  then have bm: "best_var \<in> set sql_vars" by (rule best_var_scan_None_mem)
  from v have u: "varmap(query_var \<mapsto> sql_vars) = varmap" by (rule map_upd_triv)
  from v b m u have r: "register_clause_variable query_var sql_var (varmap, joins) =
          Inr (varmap,
               if best_var = sql_var then joins
               else insert (min best_var sql_var, max best_var sql_var) joins)"
    by (auto simp: register_clause_variable_def set_add_member)
  have "register_clause_variable query_var sql_var (varmap, joins) = Inr (varmap, joins)"
    if "sql_vars = [sql_var]"
    using that v by (simp add: register_clause_variable_def)
  with b bm r show ?thesis by blast
qed

lemma example_register3:
  "register_clause_variable ''a'' (''g_c2'', ''node1'') ([''a'' \<mapsto> [(''g_c1'', ''node1'')]], {}) =
     Inr ([''a'' \<mapsto> [(''g_c1'', ''node1''), (''g_c2'', ''node1'')]],
          {((''g_c1'', ''node1''), (''g_c2'', ''node1''))})"
  by (simp add: register_clause_variable_def set_add_def min_def max_def)

lemma example_register4:
  "register_clause_variable ''a'' (''g_c3'', ''node1'')
     ([''a'' \<mapsto> [(''g_c1'', ''node1''), (''g_c2'', ''node1'')]],
      {((''g_c1'', ''node1''), (''g_c2'', ''node1''))}) =
     Inr ([''a'' \<mapsto> [(''g_c1'', ''node1''), (''g_c2'', ''node1''), (''g_c3'', ''node1'')]],
          {((''g_c2'', ''node1''), (''g_c3'', ''node1'')),
           ((''g_c1'', ''node1''), (''g_c2'', ''node1''))})"
  by (simp add: register_clause_variable_def set_add_def min_def max_def)

lemma example_reachable3:
  "reachable ([''a'' \<mapsto> [(''g_c1'', ''node1''), (''g_c2'', ''node1'')]],
              {((''g_c1'', ''node1''), (''g_c2'', ''node1''))})"
  using reachable.register[OF reachable.register[OF reachable.initial example_register1] example_register3] .

lemma example_reachable4:
  "reachable ([''a'' \<mapsto> [(''g_c1'', ''node1''), (''g_c2'', ''node1''), (''g_c3'', ''node1'')]],
              {((''g_c2'', ''node1''), (''g_c3'', ''node1'')),
               ((''g_c1'', ''node1''), (''g_c2'', ''node1''))})"
  using reachable.register[OF example_reachable3 example_register4] .

text \<open>
  The claim as stated fails in the state that the three clauses of
  \<^verbatim>\<open>MATCH (a)-[]->(), (a)-[]->(), (a)-[]->()\<close> leave behind: registering the first
  reference of \<^verbatim>\<open>a\<close> once more, as the property pass does for a node pattern with
  properties, adds a third join.
\<close>

theorem register_existing_reference_counterexample:
  "reachable ([''a'' \<mapsto> [(''g_c1'', ''node1''), (''g_c2'', ''node1''), (''g_c3'', ''node1'')]],
              {((''g_c2'', ''node1''), (''g_c3'', ''node1'')),
               ((''g_c1'', ''node1''), (''g_c2'', ''node1''))}) \<and>
   (''g_c1'', ''node1'') \<in> set [(''g_c1'', ''node1''), (''g_c2'', ''node1''), (''g_c3'', ''node1'')] \<and>
   register_clause_variable ''a'' (''g_c1'', ''node1'')
     ([''a'' \<mapsto> [(''g_c1'', ''node1''), (''g_c2'', ''node1''), (''g_c3'', ''node1'')]],
      {((''g_c2'', ''node1''), (''g_c3'', ''node1'')),
       ((''g_c1'', ''node1''), (''g_c2'', ''node1''))}) =
     Inr ([''a'' \<mapsto> [(''g_c1'', ''node1''), (''g_c2'', ''node1''), (''g_c3'', ''node1'')]],
          {((''g_c1'', ''node1''), (''g_c3'', ''node1'')),
           ((''g_c2'', ''node1''), (''g_c3'', ''node1'')),
           ((''g_c1'', ''node1''), (''g_c2'', ''node1''))}) \<and>
   {((''g_c1'', ''node1''), (''g_c3'', ''node1'')),
    ((''g_c2'', ''node1''), (''g_c3'', ''node1'')),
    ((''g_c1'', ''node1''), (''g_c2'', ''node1''))} \<noteq>
   {((''g_c2'', ''node1''), (''g_c3'', ''node1'')),
    ((''g_c1'', ''node1''), (''g_c2'', ''node1''))}"
proof -
  have "register_clause_variable ''a'' (''g_c1'', ''node1'')
     ([''a'' \<mapsto> [(''g_c1'', ''node1''), (''g_c2'', ''node1''), (''g_c3'', ''node1'')]],
      {((''g_c2'', ''node1''), (''g_c3'', ''node1'')),
       ((''g_c1'', ''node1''), (''g_c2'', ''node1''))}) =
     Inr ([''a'' \<mapsto> [(''g_c1'', ''node1''), (''g_c2'', ''node1''), (''g_c3'', ''node1'')]],
          {((''g_c1'', ''node1''), (''g_c3'', ''node1'')),
           ((''g_c2'', ''node1''), (''g_c3'', ''node1'')),
           ((''g_c1'', ''node1''), (''g_c2'', ''node1''))})"
    by (simp add: register_clause_variable_def set_add_def min_def max_def)
  moreover have "{((''g_c1'', ''node1''), (''g_c3'', ''node1'')),
      ((''g_c2'', ''node1''), (''g_c3'', ''node1'')),
      ((''g_c1'', ''node1''), (''g_c2'', ''node1''))} \<noteq>
     {((''g_c2'', ''node1''), (''g_c3'', ''node1'')),
      ((''g_c1'', ''node1''), (''g_c2'', ''node1''))}"
  proof -
    have "((''g_c1'', ''node1''), (''g_c3'', ''node1'')) \<notin>
       {((''g_c2'', ''node1''), (''g_c3'', ''node1'')),
        ((''g_c1'', ''node1''), (''g_c2'', ''node1''))}"
      by simp
    then show ?thesis by (metis insertI1)
  qed
  ultimately show ?thesis using example_reachable4 by simp
qed

theorem register_existing_reference_witness:
  "register_clause_variable ''a'' (''g_c1'', ''node1'') ([''a'' \<mapsto> [(''g_c1'', ''node1'')]], {}) =
     Inr ([''a'' \<mapsto> [(''g_c1'', ''node1'')]], {})"
proof -
  have v: "[''a'' \<mapsto> [(''g_c1'', ''node1'')]] ''a'' = Some [(''g_c1'', ''node1'')]" by simp
  have m: "(''g_c1'', ''node1'') \<in> set [(''g_c1'', ''node1'')]" by simp
  from register_existing_reference[of "[''a'' \<mapsto> [(''g_c1'', ''node1'')]]" "''a''"
      "[(''g_c1'', ''node1'')]" "(''g_c1'', ''node1'')" "{}", OF v m, THEN conjunct2, rule_format, OF refl]
  show ?thesis .
qed

text \<open>
  C2 at a state in which the first reference visited shares the alias of the new one
  and a later one does not: the loop takes the first reference without comparing aliases
  and without stopping, then overwrites it. The state is the one that the first pass
  leaves for \<^verbatim>\<open>MATCH (a {nick: a})-[]->(), (a)-[]->()\<close>; the call is the property pass
  registering \<^verbatim>\<open>a\<close> against the column \<^verbatim>\<open>node1;nick\<close> of the first clause. The join partner
  chosen is the reference of the second clause.
\<close>

theorem best_var_first_match_overwritten:
  "reachable ([''a'' \<mapsto> [(''g_c1'', ''node1''), (''g_c2'', ''node1'')]],
              {((''g_c1'', ''node1''), (''g_c2'', ''node1''))}) \<and>
   best_var_scan ''g_c1'' None [(''g_c1'', ''node1''), (''g_c2'', ''node1'')] =
     Some (''g_c2'', ''node1'') \<and>
   register_clause_variable ''a'' (''g_c1'', ''node1;nick'')
     ([''a'' \<mapsto> [(''g_c1'', ''node1''), (''g_c2'', ''node1'')]],
      {((''g_c1'', ''node1''), (''g_c2'', ''node1''))}) =
     Inr ([''a'' \<mapsto> [(''g_c1'', ''node1''), (''g_c2'', ''node1''), (''g_c1'', ''node1;nick'')]],
          {((''g_c1'', ''node1;nick''), (''g_c2'', ''node1'')),
           ((''g_c1'', ''node1''), (''g_c2'', ''node1''))})"
proof -
  have "register_clause_variable ''a'' (''g_c1'', ''node1;nick'')
     ([''a'' \<mapsto> [(''g_c1'', ''node1''), (''g_c2'', ''node1'')]],
      {((''g_c1'', ''node1''), (''g_c2'', ''node1''))}) =
     Inr ([''a'' \<mapsto> [(''g_c1'', ''node1''), (''g_c2'', ''node1''), (''g_c1'', ''node1;nick'')]],
          {((''g_c1'', ''node1;nick''), (''g_c2'', ''node1'')),
           ((''g_c1'', ''node1''), (''g_c2'', ''node1''))})"
    by (simp add: register_clause_variable_def set_add_def min_def max_def)
  then show ?thesis using example_reachable3 by simp
qed

section \<open>Properties: Placeholder rewrite (\<^verbatim>\<open>query.py\<close>)\<close>

subsection \<open>Facts about splitting at the marker pair\<close>

lemma str_split_nonempty: "str_split sep s \<noteq> []"
proof (induction sep s rule: str_split.induct)
  case (1 sep)
  show ?case by simp
next
  case (2 sep c s)
  then show ?case by (cases "str_split sep s") auto
qed

lemma str_split_plain:
  "CHR ''?'' \<notin> set s \<Longrightarrow>
     str_split ''??'' (s @ rest) = (s @ hd (str_split ''??'' rest)) # tl (str_split ''??'' rest)"
proof (induction s)
  case Nil
  show ?case using str_split_nonempty[of "''??''" rest] by simp
next
  case (Cons c s)
  then have c: "c \<noteq> CHR ''?''" and s: "CHR ''?'' \<notin> set s" by auto
  from c have "str_split ''??'' ((c # s) @ rest) = cons_first c (str_split ''??'' (s @ rest))"
    by simp
  with Cons.IH[OF s] show ?case by simp
qed

lemma str_split_marker_pair:
  "str_split ''??'' (''??'' @ rest) = [] # str_split ''??'' rest"
  by simp

lemma str_split_island:
  assumes "ds \<noteq> []" "CHR ''?'' \<notin> set ds"
  shows "str_split ''??'' (''?'' @ ds @ ''??'' @ rest) = (''?'' @ ds) # str_split ''??'' rest"
proof -
  from assms obtain d ds' where d: "ds = d # ds'" "d \<noteq> CHR ''?''" by (cases ds) auto
  then have "str_split ''??'' (''?'' @ ds @ ''??'' @ rest) =
      cons_first CHR ''?'' (str_split ''??'' (ds @ ''??'' @ rest))"
    by simp
  also have "str_split ''??'' (ds @ ''??'' @ rest) =
      (ds @ hd (str_split ''??'' (''??'' @ rest))) # tl (str_split ''??'' (''??'' @ rest))"
    using assms(2) by (rule str_split_plain)
  also have "\<dots> = ds # str_split ''??'' rest"
    by (simp only: str_split_marker_pair list.sel append_Nil2)
  finally show ?thesis by simp
qed

lemma str_split_placeholder:
  "str_split ''??'' (placeholder_token n @ rest) =
     [] # (''?'' @ str_of_nat n) # str_split ''??'' rest"
proof -
  have "placeholder_token n @ rest = ''??'' @ (''?'' @ str_of_nat n @ ''??'' @ rest)"
    by (simp add: placeholder_token_def)
  then have "str_split ''??'' (placeholder_token n @ rest) =
      [] # str_split ''??'' (''?'' @ str_of_nat n @ ''??'' @ rest)"
    by (simp only: str_split_marker_pair)
  then show ?thesis
    by (simp only: str_split_island[OF str_of_nat_nonempty str_of_nat_no_marker])
qed

subsection \<open>Facts about the rewrite\<close>

lemma reverse_litmap_minted:
  assumes "minted m" "(v, p) \<in> set m"
  shows "reverse_litmap m p = Some v"
proof -
  let ?r = "rev (map (\<lambda>(l, p). (p, l)) m)"
  have "map fst ?r = rev (map snd m)" by (simp add: rev_map case_prod_unfold)
  with minted_distinct_tokens[OF assms(1)] have "distinct (map fst ?r)" by simp
  moreover from assms(2) have "(p, v) \<in> set ?r" by force
  ultimately show ?thesis unfolding reverse_litmap_def by (rule map_of_is_SomeI)
qed

lemma minted_token_of_key:
  assumes "minted m" "v \<in> fst ` set m"
  shows "\<exists>n. fst (get_literal_parameter v m) = placeholder_token n \<and>
             reverse_litmap m (placeholder_token n) = Some v"
proof -
  from assms(2) obtain p where p: "map_of m v = Some p"
    by (cases "map_of m v") (auto simp: map_of_eq_None_iff)
  then have mem: "(v, p) \<in> set m" by (rule map_of_SomeD)
  then have "p \<in> set (map snd m)" by force
  with assms(1) obtain n where n: "p = placeholder_token n" by (auto simp: minted_def)
  from p have "fst (get_literal_parameter v m) = p" by (simp add: get_literal_parameter_hit)
  with n reverse_litmap_minted[OF assms(1) mem] show ?thesis by auto
qed

lemma replace_loop_plain_head:
  "CHR ''?'' \<notin> set h \<Longrightarrow>
     replace_loop rm (h # ts) (q, ps) = replace_loop rm ts (q @ h, ps)"
  by (cases h) auto

lemma replace_loop_island:
  "rm (''??'' @ token @ ''??'') = Some v \<Longrightarrow> prefix ''?'' token \<Longrightarrow>
     replace_loop rm (token # ts) (q, ps) = replace_loop rm ts (q @ ''?'', ps @ [v])"
  by simp

lemma replace_loop_staged:
  assumes "minted m" "well_staged m segs"
  shows "\<exists>h ts. str_split ''??'' (staged_text m segs) = h # ts \<and> CHR ''?'' \<notin> set h \<and>
           (\<forall>q ps. replace_loop (reverse_litmap m) (h # ts) (q, ps) =
                      Inr (q @ final_text segs, ps @ positional segs))"
  using assms(2)
proof (induction segs)
  case Nil
  show ?case by (simp add: staged_text_def)
next
  case (Cons seg segs)
  show ?case
  proof (cases seg)
    case (Plain s)
    with Cons.prems have s: "CHR ''?'' \<notin> set s" and w: "well_staged m segs" by auto
    from Cons.IH[OF w] obtain h ts where
      x: "str_split ''??'' (staged_text m segs) = h # ts" and h: "CHR ''?'' \<notin> set h" and
      l: "\<And>q ps. replace_loop (reverse_litmap m) (h # ts) (q, ps) =
                      Inr (q @ final_text segs, ps @ positional segs)"
      by blast
    have "staged_text m (seg # segs) = s @ staged_text m segs"
      using Plain by (simp add: staged_text_def)
    then have sp: "str_split ''??'' (staged_text m (seg # segs)) = (s @ h) # ts"
      using str_split_plain[OF s, of "staged_text m segs"] x by simp
    from s h have sh: "CHR ''?'' \<notin> set (s @ h)" by simp
    have "replace_loop (reverse_litmap m) ((s @ h) # ts) (q, ps) =
            Inr (q @ final_text (seg # segs), ps @ positional (seg # segs))" for q ps
    proof -
      have "replace_loop (reverse_litmap m) ((s @ h) # ts) (q, ps) =
              replace_loop (reverse_litmap m) ts (q @ s @ h, ps)"
        using sh by (rule replace_loop_plain_head)
      also have "\<dots> = replace_loop (reverse_litmap m) (h # ts) (q @ s, ps)"
        using replace_loop_plain_head[OF h, of "reverse_litmap m" ts "q @ s" ps] by simp
      also have "\<dots> = Inr ((q @ s) @ final_text segs, ps @ positional segs)" by (rule l)
      finally show ?thesis using Plain by simp
    qed
    with sp sh show ?thesis by blast
  next
    case (Placeholder v)
    with Cons.prems have k: "v \<in> fst ` set m" and w: "well_staged m segs" by auto
    from Cons.IH[OF w] obtain h ts where
      x: "str_split ''??'' (staged_text m segs) = h # ts" and h: "CHR ''?'' \<notin> set h" and
      l: "\<And>q ps. replace_loop (reverse_litmap m) (h # ts) (q, ps) =
                      Inr (q @ final_text segs, ps @ positional segs)"
      by blast
    from minted_token_of_key[OF assms(1) k] obtain n where
      t: "fst (get_literal_parameter v m) = placeholder_token n" and
      r: "reverse_litmap m (placeholder_token n) = Some v"
      by blast
    have "staged_text m (seg # segs) = placeholder_token n @ staged_text m segs"
      using Placeholder t by (simp add: staged_text_def)
    then have sp: "str_split ''??'' (staged_text m (seg # segs)) =
        [] # (''?'' @ str_of_nat n) # h # ts"
      using str_split_placeholder[of n "staged_text m segs"] x by simp
    have key: "''??'' @ (''?'' @ str_of_nat n) @ ''??'' = placeholder_token n"
      by (simp add: placeholder_token_def)
    have "replace_loop (reverse_litmap m) ([] # (''?'' @ str_of_nat n) # h # ts) (q, ps) =
            Inr (q @ final_text (seg # segs), ps @ positional (seg # segs))" for q ps
    proof -
      have "replace_loop (reverse_litmap m) ([] # (''?'' @ str_of_nat n) # h # ts) (q, ps) =
              replace_loop (reverse_litmap m) ((''?'' @ str_of_nat n) # h # ts) (q, ps)"
        by simp
      also have "\<dots> = replace_loop (reverse_litmap m) (h # ts) (q @ ''?'', ps @ [v])"
        using r key replace_loop_island[of "reverse_litmap m" "''?'' @ str_of_nat n" v "h # ts" q ps]
        by simp
      also have "\<dots> = Inr ((q @ ''?'') @ final_text segs, (ps @ [v]) @ positional segs)"
        by (rule l)
      finally show ?thesis using Placeholder by simp
    qed
    with sp show ?thesis by (intro exI[of _ "[]"] exI[of _ "(''?'' @ str_of_nat n) # h # ts"]) simp
  qed
qed

lemma count_final_text:
  "well_staged m segs \<Longrightarrow>
     length (filter (\<lambda>c. c = CHR ''?'') (final_text segs)) = length (positional segs)"
proof (induction segs)
  case Nil
  show ?case by simp
next
  case (Cons seg segs)
  then show ?case
    by (cases seg) (auto simp: filter_empty_conv)
qed

text \<open>
  C1. For a map built by intern calls and a staged text whose marker characters all
  belong to placeholders of that map, \<^verbatim>\<open>replace_literal_parameters\<close> returns the text with
  one \<^verbatim>\<open>?\<close> for each placeholder occurrence and the list of their literals in text order,
  one per occurrence; the list is as long as the number of \<^verbatim>\<open>?\<close> in the final text.
\<close>

theorem replace_literal_parameters_staged:
  "well_staged (intern_all vs) segs \<Longrightarrow>
     replace_literal_parameters (staged_text (intern_all vs) segs) (intern_all vs) =
       Inr (final_text segs, positional segs) \<and>
     length (positional segs) = length (filter (\<lambda>c. c = CHR ''?'') (final_text segs))"
proof -
  assume w: "well_staged (intern_all vs) segs"
  from replace_loop_staged[OF minted_intern_all w] obtain h ts where
    x: "str_split ''??'' (staged_text (intern_all vs) segs) = h # ts" and
    l: "\<And>q ps. replace_loop (reverse_litmap (intern_all vs)) (h # ts) (q, ps) =
                    Inr (q @ final_text segs, ps @ positional segs)"
    by blast
  from x l[of "[]" "[]"] have
    "replace_literal_parameters (staged_text (intern_all vs) segs) (intern_all vs) =
       Inr (final_text segs, positional segs)"
    by (simp add: replace_literal_parameters_def)
  with count_final_text[OF w] show ?thesis by simp
qed

lemma example_intern_all:
  "intern_all [''loves'', ''name'', ''loves''] = [(''loves'', ''???0??''), (''name'', ''???1??'')]"
  by code_simp

lemma example_staged_text:
  "staged_text [(''loves'', ''???0??''), (''name'', ''???1??'')]
     [Plain ''SELECT '', Placeholder ''loves'', Plain '' WHERE a='', Placeholder ''loves'',
      Plain '' AND b='', Placeholder ''name''] =
   ''SELECT ???0?? WHERE a=???0?? AND b=???1??''"
  by code_simp

lemma example_well_staged:
  "well_staged [(''loves'', ''???0??''), (''name'', ''???1??'')]
     [Plain ''SELECT '', Placeholder ''loves'', Plain '' WHERE a='', Placeholder ''loves'',
      Plain '' AND b='', Placeholder ''name'']"
  by simp

text \<open>
  The theorem at the staged text \<^verbatim>\<open>SELECT ???0?? WHERE a=???0?? AND b=???1??\<close>, after
  interning \<^verbatim>\<open>'loves'\<close>, \<^verbatim>\<open>'name'\<close> and \<^verbatim>\<open>'loves'\<close> again: the placeholder of
  \<^verbatim>\<open>'loves'\<close> occurs twice and yields two parameters.
\<close>

theorem replace_literal_parameters_staged_witness:
  "replace_literal_parameters ''SELECT ???0?? WHERE a=???0?? AND b=???1??''
     [(''loves'', ''???0??''), (''name'', ''???1??'')] =
     Inr (''SELECT ? WHERE a=? AND b=?'', [''loves'', ''loves'', ''name'']) \<and>
   length [''loves'', ''loves'', ''name''] =
     length (filter (\<lambda>c. c = CHR ''?'') ''SELECT ? WHERE a=? AND b=?'')"
proof -
  let ?segs = "[Plain ''SELECT '', Placeholder ''loves'', Plain '' WHERE a='', Placeholder ''loves'',
      Plain '' AND b='', Placeholder ''name'']"
  have w: "well_staged (intern_all [''loves'', ''name'', ''loves'']) ?segs"
    unfolding example_intern_all by (rule example_well_staged)
  have f: "final_text ?segs = ''SELECT ? WHERE a=? AND b=?''" by simp
  have p: "positional ?segs = [''loves'', ''loves'', ''name'']" by simp
  from replace_literal_parameters_staged[OF w]
  show ?thesis unfolding example_intern_all example_staged_text f p .
qed

section \<open>Properties: Graph-handle resolver (\<^verbatim>\<open>query.py\<close>)\<close>

subsection \<open>Facts about the resolver\<close>








lemma example_base_handle: "base_handle_of ''g12'' = ''g''"
  by code_simp

lemma example_base_handle_all_digits: "base_handle_of ''12'' = ''12''"
  by code_simp

lemma example_basename: "basename ''/data/graph.tsv'' = ''graph.tsv''"
  by code_simp


lemma example_resolve_path:
  "resolve_by_preference ''/data/graph.tsv'' [''/data/edges.tsv'', ''/data/graph.tsv''] []
     = Inr ''/data/graph.tsv''"
  by code_simp


section \<open>Properties: Expression translator (\<^verbatim>\<open>query.py\<close>)\<close>

subsection \<open>Facts about the translator\<close>

lemma expressions_to_sql_append_variable:
  "expressions_to_sql store params pre litmap None = Inr (ts, litmap1) \<Longrightarrow>
     expressions_to_sql store params (pre @ Variable v # post) litmap None = Inl (IllegalContext v)"
  by (induction pre arbitrary: litmap ts) (auto split: sum.splits)

lemma expressions_to_sql_variable_no_result:
  "Variable v \<in> set elements \<Longrightarrow> expressions_to_sql store params elements litmap None \<noteq> Inr r"
  by (induction elements arbitrary: litmap r) (auto split: sum.splits)

lemma expressions_to_sql_variable_fails:
  "Variable v \<in> set elements \<Longrightarrow> \<exists>e. expressions_to_sql store params elements litmap None = Inl e"
  using expressions_to_sql_variable_no_result[of v elements store params litmap]
  by (cases "expressions_to_sql store params elements litmap None") auto

lemma reaches_variable_no_result:
  "expression_to_sql store params e litmap varmap = Inr r \<Longrightarrow> varmap = None \<Longrightarrow>
     \<not> reaches_variable e"
  "expressions_to_sql store params es litmap varmap = Inr rs \<Longrightarrow> varmap = None \<Longrightarrow>
     \<forall>elt \<in> set es. \<not> reaches_variable elt"
proof (induction store params e litmap varmap and store params es litmap varmap
       arbitrary: r and rs rule: expression_to_sql_expressions_to_sql.induct)
  case (22 store params fname args is_distinct litmap varmap)
  show ?case
  proof (cases "upper fname = ''CAST''")
    case True
    show ?thesis
    proof
      assume "reaches_variable (Call fname args is_distinct)"
      with True obtain arg0 tname where a: "args = [arg0, Variable tname]" "reaches_variable arg0"
        by (auto split: list.splits expr.splits)
      with True "22.prems" "22.IH"(1) show False by (auto split: sum.splits)
    qed
  next
    case False
    with "22.IH"(2) "22.prems" show ?thesis by (auto split: sum.splits)
  qed
next
  case (23 store params arg1 arg2 litmap varmap)
  show ?case
  proof
    assume "reaches_variable (Expression2 arg1 arg2)"
    then obtain query_var where "arg1 = Variable query_var"
      by (cases arg1) auto
    with "23.prems" show False by simp
  qed
qed (fastforce split: sum.splits)+

text \<open>
  C9. A variable translated without a variable map fails with the illegal-context
  error. The elements of a list are translated without the map: a list with a variable
  among its elements produces no text, and the error is the illegal-context one when the
  elements before the variable translate. The expressions of \<^verbatim>\<open>LIMIT\<close> and \<^verbatim>\<open>SKIP\<close> are
  translated without the map whatever map the caller holds: a variable there fails the
  same way, and so does every expression in which the translator reaches a variable.
\<close>

theorem variable_illegal_context:
  "expression_to_sql store params (Variable v) litmap None = Inl (IllegalContext v) \<and>
   (Variable v \<in> set elements \<longrightarrow>
      (\<exists>e. expression_to_sql store params (List elements) litmap varmap = Inl e)) \<and>
   (expressions_to_sql store params pre litmap None = Inr (ts, litmap1) \<longrightarrow>
      expression_to_sql store params (List (pre @ Variable v # post)) litmap varmap =
        Inl (IllegalContext v)) \<and>
   limit_clauses_to_sql store params skip_clause (Some (Variable v)) litmap varmap =
     Inl (IllegalContext v) \<and>
   limit_clauses_to_sql store params (Some (Variable v)) None litmap varmap =
     Inl (IllegalContext v) \<and>
   (reaches_variable x \<longrightarrow>
      (\<exists>e. limit_clauses_to_sql store params skip_clause (Some x) litmap varmap = Inl e) \<and>
      (\<exists>e. limit_clauses_to_sql store params (Some x) limit_clause litmap varmap = Inl e))"
proof -
  have a: "expression_to_sql store params (Variable v) litmap None = Inl (IllegalContext v)"
    by simp
  have b: "\<exists>e. expression_to_sql store params (List elements) litmap varmap = Inl e"
    if "Variable v \<in> set elements"
    using expressions_to_sql_variable_fails[OF that, of store params litmap] by auto
  have c: "expression_to_sql store params (List (pre @ Variable v # post)) litmap varmap =
        Inl (IllegalContext v)"
    if "expressions_to_sql store params pre litmap None = Inr (ts, litmap1)"
    using expressions_to_sql_append_variable[OF that] by simp
  have d: "limit_clauses_to_sql store params skip_clause (Some (Variable v)) litmap varmap =
     Inl (IllegalContext v)"
    by (simp add: limit_clauses_to_sql_def)
  have e: "limit_clauses_to_sql store params (Some (Variable v)) None litmap varmap =
     Inl (IllegalContext v)"
    by (simp add: limit_clauses_to_sql_def)
  have n: "\<exists>e. expression_to_sql store params x m None = Inl e" if "reaches_variable x" for m
    using reaches_variable_no_result(1)[of store params x m None] that
    by (cases "expression_to_sql store params x m None") auto
  have f: "\<exists>e. limit_clauses_to_sql store params skip_clause (Some x) litmap varmap = Inl e"
    if "reaches_variable x"
    using n[OF that, of litmap] by (auto simp: limit_clauses_to_sql_def)
  have g: "\<exists>e. limit_clauses_to_sql store params (Some x) limit_clause litmap varmap = Inl e"
    if "reaches_variable x"
  proof (cases "(case limit_clause of
                 Some limit_expression \<Rightarrow>
                   (case expression_to_sql store params limit_expression litmap None of
                      Inl e \<Rightarrow> Inl e
                    | Inr (text, litmap1) \<Rightarrow> Inr (''LIMIT'' @ '' '' @ text, litmap1))
               | None \<Rightarrow> Inr (''LIMIT'' @ '' -1'', litmap))")
    case (Inl err)
    then show ?thesis by (simp add: limit_clauses_to_sql_def)
  next
    case (Inr res)
    obtain limit m where "res = (limit, m)" by (cases res)
    with Inr n[OF that, of m] show ?thesis by (auto simp: limit_clauses_to_sql_def)
  qed
  from a b c d e f g show ?thesis by blast
qed

text \<open>
  The theorem at \<^verbatim>\<open>['a', x]\<close>, whose first element translates, and at \<^verbatim>\<open>LIMIT (- x)\<close>.
\<close>

theorem variable_illegal_context_witness:
  "expression_to_sql example_store Map.empty (List [Literal ''a'', Variable ''x'']) []
       (Some [''x'' \<mapsto> [(''g_c1'', ''node1'')]]) = Inl (IllegalContext ''x'') \<and>
   (\<exists>e. limit_clauses_to_sql example_store (Map.empty :: string \<rightharpoonup> string) None
       (Some (Minus (Variable ''x''))) [] (Some [''x'' \<mapsto> [(''g_c1'', ''node1'')]]) = Inl e)"
proof -
  have p: "expressions_to_sql example_store Map.empty [Literal ''a''] [] None =
      Inr ([''???0??''], [(''a'', ''???0??'')])"
    by (simp add: get_literal_parameter_def Let_def placeholder_token_def str_of_nat.simps digit_char_def)
  have r: "reaches_variable (Minus (Variable ''x'') :: string expr)" by simp
  note T = variable_illegal_context[of example_store Map.empty "''x''" "[]"
      "[Literal ''a'', Variable ''x'']" "Some [''x'' \<mapsto> [(''g_c1'', ''node1'')]]"
      "[Literal ''a'']" "[''???0??'']" "[(''a'', ''???0??'')]" "[]" None
      "Minus (Variable ''x'')" None]
  from T p have 1: "expression_to_sql example_store Map.empty (List [Literal ''a'', Variable ''x'']) []
       (Some [''x'' \<mapsto> [(''g_c1'', ''node1'')]]) = Inl (IllegalContext ''x'')"
    by simp
  from T[THEN conjunct2, THEN conjunct2, THEN conjunct2, THEN conjunct2, THEN conjunct2,
      rule_format, OF r, THEN conjunct1]
  have 2: "\<exists>e. limit_clauses_to_sql example_store (Map.empty :: string \<rightharpoonup> string) None
       (Some (Minus (Variable ''x''))) [] (Some [''x'' \<mapsto> [(''g_c1'', ''node1'')]]) = Inl e" .
  from 1 2 show ?thesis by (rule conjI)
qed

subsection \<open>Facts about property lookups\<close>

lemma property_lookups_all:
  "property_lookups store var (map PropertyLookup props) =
     Some (foldl (property_step store) var props)"
  by (induction props arbitrary: var) simp_all

lemma property_lookups_other:
  "OtherLookup \<in> set chain \<Longrightarrow> property_lookups store var chain = None"
  by (induction store var chain rule: property_lookups.induct) auto

lemma upper_append: "upper (a @ b) = upper a @ upper b"
  by (simp add: upper_def)

lemma upper_char_dquote: "upper_char dquote = dquote"
  by (simp add: upper_char_def dquote_def)

lemma upper_char_dot: "upper_char CHR ''.'' = CHR ''.''"
  by (simp add: upper_char_def)

lemma property_step_id:
  assumes "\<not> (is_kgtk_operator p \<and> is_user_function store p)" and "upper [i, d] = ''ID''"
  shows "property_step store (alias @ ''.'' @ [dquote, i, d, dquote]) p =
           alias @ ''.'' @ [dquote] @ p @ [dquote]"
proof -
  let ?E = "alias @ ''.'' @ [dquote, i, d, dquote]"
  from assms(2) have "upper ?E = upper alias @ (''.'' @ [dquote] @ ''ID'' @ [dquote])"
    by (simp add: upper_def upper_char_dquote upper_char_dot)
  then have "suffix (''.'' @ [dquote] @ ''ID'' @ [dquote]) (upper ?E)"
    by (simp only: suffix_def) blast
  moreover have "take (length ?E - 3) ?E = alias @ ''.'' @ [dquote]" by simp
  ultimately show ?thesis using assms(1) by (simp only: property_step_def if_True if_False) simp
qed

text \<open>
  C6. When the variable translates to the emission \<open>E\<close>, the property lookup translates
  to the fold of \<open>property_step\<close> over the property names, starting from \<open>E\<close>, and a chain
  with an element that is not a property lookup fails. One step with the property \<open>p\<close>:
  if \<open>p\<close> is a registered user function whose upper-cased name starts with \<^verbatim>\<open>KGTK_\<close>, the
  emission becomes \<open>p(E)\<close>; otherwise, if \<open>E\<close> ends in \<^verbatim>\<open>."id"\<close> in any letter case, the
  \<^verbatim>\<open>id\<close> is replaced by \<open>p\<close>; otherwise the last character is dropped and \<^verbatim>\<open>;p"\<close> is
  appended, which for an emission that ends in a double quote replaces that quote.
\<close>

theorem property_lookup_fold:
  "(expression_to_sql store params (Variable x) litmap varmap = Inr (emission, litmap1) \<longrightarrow>
      expression_to_sql store params (Expression2 (Variable x) (map PropertyLookup props))
          litmap varmap =
        Inr (foldl (property_step store) emission props, litmap1) \<and>
      (OtherLookup \<in> set chain \<longrightarrow>
         expression_to_sql store params (Expression2 (Variable x) chain) litmap varmap =
           Inl UnhandledPropertyLookup)) \<and>
   (is_kgtk_operator p \<longleftrightarrow> prefix ''KGTK_'' (upper p)) \<and>
   (is_kgtk_operator p \<and> is_user_function store p \<longrightarrow>
      property_step store E p = p @ ''('' @ E @ '')'') \<and>
   (\<not> (is_kgtk_operator p \<and> is_user_function store p) \<and> upper [i, d] = ''ID'' \<longrightarrow>
      property_step store (alias @ ''.'' @ [dquote, i, d, dquote]) p =
        alias @ ''.'' @ [dquote] @ p @ [dquote]) \<and>
   (\<not> (is_kgtk_operator p \<and> is_user_function store p) \<and>
    \<not> suffix (''.'' @ [dquote] @ ''ID'' @ [dquote]) (upper E) \<longrightarrow>
      property_step store E p = butlast E @ '';'' @ p @ [dquote] \<and>
      (\<forall>body. E = body @ [dquote] \<longrightarrow>
         property_step store E p = body @ '';'' @ p @ [dquote]))"
proof -
  have a: "expression_to_sql store params (Expression2 (Variable x) (map PropertyLookup props))
          litmap varmap =
        Inr (foldl (property_step store) emission props, litmap1)"
    if "expression_to_sql store params (Variable x) litmap varmap = Inr (emission, litmap1)"
    using that by (simp add: property_lookups_all del: expression_to_sql.simps(3))
  have b: "expression_to_sql store params (Expression2 (Variable x) chain) litmap varmap =
           Inl UnhandledPropertyLookup"
    if "expression_to_sql store params (Variable x) litmap varmap = Inr (emission, litmap1)"
      and "OtherLookup \<in> set chain"
    using that by (simp add: property_lookups_other del: expression_to_sql.simps(3))
  have c: "is_kgtk_operator p \<longleftrightarrow> prefix ''KGTK_'' (upper p)"
    by (simp add: is_kgtk_operator_def)
  have d: "property_step store E p = p @ ''('' @ E @ '')''"
    if "is_kgtk_operator p \<and> is_user_function store p"
    using that by (simp add: property_step_def)
  have e: "property_step store (alias @ ''.'' @ [dquote, i, d, dquote]) p =
        alias @ ''.'' @ [dquote] @ p @ [dquote]"
    if "\<not> (is_kgtk_operator p \<and> is_user_function store p) \<and> upper [i, d] = ''ID''"
    using that property_step_id by blast
  have f: "property_step store E p = butlast E @ '';'' @ p @ [dquote]"
    if "\<not> (is_kgtk_operator p \<and> is_user_function store p) \<and>
        \<not> suffix (''.'' @ [dquote] @ ''ID'' @ [dquote]) (upper E)"
    using that by (simp only: property_step_def if_False)
  have g: "property_step store E p = body @ '';'' @ p @ [dquote]"
    if "\<not> (is_kgtk_operator p \<and> is_user_function store p) \<and>
        \<not> suffix (''.'' @ [dquote] @ ''ID'' @ [dquote]) (upper E)" and "E = body @ [dquote]"
    for body
    using f[OF that(1)] that(2) by simp
  from a b c d e f g show ?thesis by blast
qed

lemma example_step_id:
  "property_step example_store (''g_c2.'' @ [dquote] @ ''id'' @ [dquote]) ''label'' =
     ''g_c2.'' @ [dquote] @ ''label'' @ [dquote]"
  by code_simp

lemma example_step_wide:
  "property_step example_store (''g_c2.'' @ [dquote] @ ''label'' @ [dquote]) ''lang'' =
     ''g_c2.'' @ [dquote] @ ''label;lang'' @ [dquote]"
  by code_simp

lemma example_step_kgtk:
  "property_step example_store (''g_c2.'' @ [dquote] @ ''label;lang'' @ [dquote]) ''kgtk_year'' =
     ''kgtk_year(g_c2.'' @ [dquote] @ ''label;lang'' @ [dquote] @ '')''"
  by code_simp

text \<open>
  The theorem at \<^verbatim>\<open>r2.label.lang.kgtk_year\<close> with \<^verbatim>\<open>r2\<close> bound to the \<^verbatim>\<open>id\<close> column of the
  second clause: the three kinds of step in turn.
\<close>

theorem property_lookup_fold_witness:
  "expression_to_sql example_store (Map.empty :: string \<rightharpoonup> string)
     (Expression2 (Variable ''r2'')
        [PropertyLookup ''label'', PropertyLookup ''lang'', PropertyLookup ''kgtk_year''])
     [] (Some [''r2'' \<mapsto> [(''g_c2'', ''id'')]]) =
   Inr (''kgtk_year(g_c2.'' @ [dquote] @ ''label;lang'' @ [dquote] @ '')'', [])"
proof -
  have v: "expression_to_sql example_store (Map.empty :: string \<rightharpoonup> string) (Variable ''r2'') []
      (Some [''r2'' \<mapsto> [(''g_c2'', ''id'')]]) = Inr (''g_c2.'' @ [dquote] @ ''id'' @ [dquote], [])"
    by (simp add: sql_quote_ident_def dquote_def)
  from property_lookup_fold[where props = "[''label'', ''lang'', ''kgtk_year'']",
      THEN conjunct1, rule_format, OF v, THEN conjunct1]
  show ?thesis
    by (simp only: list.map foldl.simps example_step_id example_step_wide example_step_kgtk)
qed

section \<open>Properties: Return-clause synthesis (\<^verbatim>\<open>query.py\<close>)\<close>

subsection \<open>Facts about the return clause\<close>










end
